theory Spec2Isabelle
  imports Main
begin

unbundle bit_operations_syntax

section \<open>Data model: the three sheets\<close>

text \<open>
  The backend (Apps Script) keeps three sheets: users, sessions and chat_history.
  A sheet is read with \<open>getDataRange().getValues()\<close> as an array of rows whose element 0
  is the header row; every scan of the source starts at index 1. A sheet is modelled as
  the list of all its rows, header included, so that list index \<open>i\<close> is sheet row
  \<open>i + 1\<close>. Timestamps are written with \<open>toISOString()\<close> and read back with
  \<open>new Date(...)\<close>; they are modelled as the number of milliseconds since the epoch
  (\<open>int\<close>), and the cell \<open>reset_token_expires\<close>, which also holds the empty string,
  as \<open>int option\<close> (\<open>None\<close> is the empty cell, whose date is invalid).
  Field names of the three row types share one name space here, so the session's and
  the chat row's columns carry a prefix where they would clash with the user's.
  The id of a chat row is the text of its timestamp, an underscore and a random suffix;
  it is modelled as the pair of the two. Strings are lists of characters: \<open>length\<close> and
  \<open>substring\<close> of the source count the code units of the string, here its characters.
\<close>

record user =
  email :: string
  username :: string
  password_hash :: string
  salt :: string
  created_at :: int
  verified :: bool
  verify_token :: string
  reset_token :: string
  reset_token_expires :: "int option"
  updated_at :: int

record session =
  token :: string
  user_email :: string
  session_created_at :: int
  expires_at :: int

record chat_row =
  msg_id :: "int \<times> string"
  session_id :: string
  msg_user_email :: string
  message_type :: string
  content :: string
  msg_created_at :: int

text \<open>A mail of the backend: the address it goes to and the token its link carries.\<close>

datatype mail = VerificationEmail string string | ResetEmail string string

fun recipient :: "mail \<Rightarrow> string" where
  "recipient (VerificationEmail to_addr tok) = to_addr"
| "recipient (ResetEmail to_addr tok) = to_addr"

record store =
  users :: "user list"
  sessions :: "session list"
  chat_history :: "chat_row list"
  outbox :: "mail list"

text \<open>The \<open>user\<close> object that login, validateSession and getUser put in their payload.\<close>

record user_summary =
  us_email :: string
  us_username :: string
  us_id :: string
  us_created_at :: int

text \<open>Configuration constants of the source.\<close>

definition SESSION_DURATION_DAYS :: int where
  "SESSION_DURATION_DAYS = 7"

definition RESET_TOKEN_DURATION_HOURS :: int where
  "RESET_TOKEN_DURATION_HOURS = 24"

section \<open>Database helpers\<close>

text \<open>
  \<open>for (let i = 1; i < data.length; i++) if (pred(data[i])) return {row: i + 1, ...}\<close>:
  \<open>scanRows P i rs\<close> walks the rows \<open>rs\<close> that start at list index \<open>i\<close> and returns the
  first match with its sheet row number \<open>i + 1\<close>, or \<open>None\<close> for the source's \<open>null\<close>.
\<close>

fun scanRows :: "('r \<Rightarrow> bool) \<Rightarrow> nat \<Rightarrow> 'r list \<Rightarrow> (nat \<times> 'r) option" where
  "scanRows P i [] = None"
| "scanRows P i (r # rs) = (if P r then Some (i + 1, r) else scanRows P (i + 1) rs)"

definition findUserByEmail :: "user list \<Rightarrow> string \<Rightarrow> (nat \<times> user) option" where
  "findUserByEmail data e = scanRows (\<lambda>r. email r = e) 1 (drop 1 data)"

definition findUserByVerifyToken :: "user list \<Rightarrow> string \<Rightarrow> (nat \<times> user) option" where
  "findUserByVerifyToken data t = scanRows (\<lambda>r. verify_token r = t) 1 (drop 1 data)"

definition findUserByResetToken :: "user list \<Rightarrow> string \<Rightarrow> (nat \<times> user) option" where
  "findUserByResetToken data t = scanRows (\<lambda>r. reset_token r = t) 1 (drop 1 data)"

definition findSessionByToken :: "session list \<Rightarrow> string \<Rightarrow> (nat \<times> session) option" where
  "findSessionByToken data t = scanRows (\<lambda>r. token r = t) 1 (drop 1 data)"

text \<open>
  \<open>updateUserField(email, field, value)\<close>: the pair of field name and value is one
  constructor of \<open>cell_write\<close> (all field names the handlers pass are in \<open>colMap\<close>);
  \<open>setValue\<close> writes that one cell of the row.
\<close>

datatype cell_write =
    Set_username string
  | Set_password_hash string
  | Set_salt string
  | Set_verified bool
  | Set_verify_token string
  | Set_reset_token string
  | Set_reset_token_expires "int option"
  | Set_updated_at int

fun setValue :: "cell_write \<Rightarrow> user \<Rightarrow> user" where
  "setValue (Set_username v) u = u\<lparr>username := v\<rparr>"
| "setValue (Set_password_hash v) u = u\<lparr>password_hash := v\<rparr>"
| "setValue (Set_salt v) u = u\<lparr>salt := v\<rparr>"
| "setValue (Set_verified v) u = u\<lparr>verified := v\<rparr>"
| "setValue (Set_verify_token v) u = u\<lparr>verify_token := v\<rparr>"
| "setValue (Set_reset_token v) u = u\<lparr>reset_token := v\<rparr>"
| "setValue (Set_reset_token_expires v) u = u\<lparr>reset_token_expires := v\<rparr>"
| "setValue (Set_updated_at v) u = u\<lparr>updated_at := v\<rparr>"

definition updateUserField :: "user list \<Rightarrow> string \<Rightarrow> cell_write \<Rightarrow> user list" where
  "updateUserField data e w =
     (case findUserByEmail data e of
        None \<Rightarrow> data
      | Some (row, u) \<Rightarrow> data[row - 1 := setValue w (data ! (row - 1))])"

text \<open>\<open>sheet.deleteRow(row)\<close> removes sheet row \<open>row\<close>, that is list index \<open>row - 1\<close>.\<close>

definition deleteRow :: "nat \<Rightarrow> 'r list \<Rightarrow> 'r list" where
  "deleteRow row data = take (row - 1) data @ drop row data"

definition deleteSession :: "session list \<Rightarrow> string \<Rightarrow> session list" where
  "deleteSession data t =
     (case findSessionByToken data t of
        None \<Rightarrow> data
      | Some (row, s) \<Rightarrow> deleteRow row data)"

section \<open>Utility functions\<close>

text \<open>
  \<open>generateToken(length)\<close> appends \<open>length\<close> times
  \<open>chars.charAt(Math.floor(Math.random() * chars.length))\<close>. The random source is the
  sequence \<open>rnd\<close>: its \<open>k\<close>-th element, reduced modulo \<open>chars.length\<close>, is the index the
  \<open>k\<close>-th call of \<open>Math.random\<close> selects; \<open>off\<close> is the number of calls made before.
\<close>

definition chars :: string where
  "chars = ''ABCDEFGHIJKLMNOPQRSTUVWXYZabcdefghijklmnopqrstuvwxyz0123456789''"

definition generateToken :: "(nat \<Rightarrow> nat) \<Rightarrow> nat \<Rightarrow> nat \<Rightarrow> string" where
  "generateToken rnd off len = map (\<lambda>i. chars ! (rnd (off + i) mod length chars)) [0..<len]"

text \<open>
  \<open>hashPassword(password, salt)\<close>: the digest of \<open>password + salt\<close>, each byte printed as
  two lower-case hexadecimal digits. \<open>Utilities.computeDigest\<close> belongs to the platform
  and is the parameter \<open>digest\<close>, returning the bytes as integers.
\<close>

definition hexDigit :: "nat \<Rightarrow> char" where
  "hexDigit n = ''0123456789abcdef'' ! n"

definition toString16 :: "nat \<Rightarrow> string" where
  "toString16 n = (if n < 16 then [hexDigit n] else [hexDigit (n div 16), hexDigit (n mod 16)])"

definition hexByte :: "int \<Rightarrow> string" where
  "hexByte b = (let hex = toString16 (nat (b AND 255))
                in if length hex = 1 then CHR ''0'' # hex else hex)"

definition hexDigest :: "(string \<Rightarrow> int list) \<Rightarrow> string \<Rightarrow> string" where
  "hexDigest digest input = concat (map hexByte (digest input))"

definition hashPassword :: "(string \<Rightarrow> int list) \<Rightarrow> string \<Rightarrow> string \<Rightarrow> string" where
  "hashPassword digest password slt = hexDigest digest (password @ slt)"

section \<open>Responses\<close>

text \<open>
  The exceptions of the platform that the modelled code can raise: \<open>JSON.parse\<close> on a
  malformed text, a property read on \<open>null\<close> or \<open>undefined\<close>, and \<open>new Error(msg)\<close>.
\<close>

datatype exn = SyntaxError | TypeError | ErrorObject string

text \<open>The objects of the chat history payload.\<close>

record message =
  m_id :: "int \<times> string"
  m_type :: string
  m_content :: string
  m_created_at :: int

record conversation =
  sessionId :: string
  title :: string
  preview :: string
  conv_totalMessages :: nat
  conv_humanMessages :: nat
  conv_aiMessages :: nat
  messages :: "message list"
  createdAt :: int

text \<open>The objects of the chat statistics payload.\<close>

record day_bar =
  d_label :: string
  d_count :: nat
  d_percentage :: nat

record recent =
  r_sessionId :: string
  r_messageCount :: nat

record stats =
  totalSessions :: nat
  totalMessages :: nat
  humanMessages :: nat
  aiMessages :: nat
  messagesByDay :: "day_bar list"
  recentConversations :: "recent list"
  firstMessageDate :: "int option"
  lastMessageDate :: "int option"

text \<open>
  Every handler returns one JSON object: \<open>{error: msg}\<close> or a payload. One constructor
  per shape of object the modelled handlers return. \<open>Thrown e\<close> is a handler that raised
  \<open>e\<close>: \<open>doPost\<close> catches it and answers \<open>{error: e.message}\<close>.
\<close>

datatype response =
    Error string
  | Success string
  | SuccessOnly
  | LoginSuccess string int user_summary
  | Valid user_summary
  | SavedMessage "int \<times> string"
  | ChatHistory "conversation list" "chat_row list"
  | ChatStats stats
  | Thrown exn

definition summary :: "user \<Rightarrow> user_summary" where
  "summary u = \<lparr>us_email = email u, us_username = username u, us_id = email u,
                us_created_at = created_at u\<rparr>"

section \<open>Auth handlers\<close>

text \<open>
  A handler takes the store and the request's fields and returns the response with the
  store after the request. A request field that is absent is falsy in the source, as the
  empty string is; both are the empty string here. \<open>now\<close> is the value of the clock
  during the request. The spreadsheet service is taken to answer. \<open>MailApp.sendEmail\<close>
  belongs to the platform and is the parameter \<open>sendEmail\<close>: \<open>None\<close> where the mail is
  accepted, and then it is appended to \<open>outbox\<close>; \<open>Some msg\<close> where the call raises an
  exception with that message (an address it cannot mail to, the quota of the day used
  up). The handlers do not catch it: the cells written before the call stay written and
  the response is \<open>Thrown\<close>.
\<close>

definition handleSignup ::
  "(string \<Rightarrow> int list) \<Rightarrow> (nat \<Rightarrow> nat) \<Rightarrow> (mail \<Rightarrow> string option) \<Rightarrow> int \<Rightarrow> store
     \<Rightarrow> string \<Rightarrow> string \<Rightarrow> string \<Rightarrow> response \<times> store" where
  "handleSignup digest rnd sendEmail now st em password uname =
     (if em = [] \<or> password = [] then (Error ''Email and password are required'', st)
      else case findUserByEmail (users st) em of
        Some existingUser \<Rightarrow> (Error ''This email is already registered'', st)
      | None \<Rightarrow>
          let slt = generateToken rnd 0 32;
              passwordHash = hashPassword digest password slt;
              verifyToken = generateToken rnd 32 32;
              userData = \<lparr>email = em, username = uname, password_hash = passwordHash,
                          salt = slt, created_at = now, verified = False,
                          verify_token = verifyToken, reset_token = [],
                          reset_token_expires = None, updated_at = now\<rparr>;
              st1 = st\<lparr>users := users st @ [userData]\<rparr>
          in (case sendEmail (VerificationEmail em verifyToken) of
                Some msg \<Rightarrow> (Thrown (ErrorObject msg), st1)
              | None \<Rightarrow>
                  (Success ''Registration successful. Please check your email to verify your account.'',
                   st1\<lparr>outbox := outbox st @ [VerificationEmail em verifyToken]\<rparr>)))"

definition handleLogin ::
  "(string \<Rightarrow> int list) \<Rightarrow> (nat \<Rightarrow> nat) \<Rightarrow> int \<Rightarrow> store \<Rightarrow> string \<Rightarrow> string
     \<Rightarrow> response \<times> store" where
  "handleLogin digest rnd now st em password =
     (if em = [] \<or> password = [] then (Error ''Email and password are required'', st)
      else case findUserByEmail (users st) em of
        None \<Rightarrow> (Error ''Invalid login credentials'', st)
      | Some (row, u) \<Rightarrow>
          if \<not> verified u then (Error ''Email not confirmed. Please check your inbox.'', st)
          else if hashPassword digest password (salt u) \<noteq> password_hash u
          then (Error ''Invalid login credentials'', st)
          else
            let tok = generateToken rnd 0 64;
                expiresAt = now + SESSION_DURATION_DAYS * 24 * 60 * 60 * 1000;
                sessionData = \<lparr>token = tok, user_email = em, session_created_at = now,
                               expires_at = expiresAt\<rparr>
            in (LoginSuccess tok expiresAt (summary u),
                st\<lparr>sessions := sessions st @ [sessionData]\<rparr>))"

definition handleValidateSession :: "int \<Rightarrow> store \<Rightarrow> string \<Rightarrow> response \<times> store" where
  "handleValidateSession now st tok =
     (if tok = [] then (Error ''Token is required'', st)
      else case findSessionByToken (sessions st) tok of
        None \<Rightarrow> (Error ''Invalid session'', st)
      | Some (row, s) \<Rightarrow>
          if expires_at s < now
          then (Error ''Session expired'', st\<lparr>sessions := deleteSession (sessions st) tok\<rparr>)
          else (case findUserByEmail (users st) (user_email s) of
                  None \<Rightarrow> (Error ''User not found'', st)
                | Some (urow, u) \<Rightarrow> (Valid (summary u), st)))"

definition handleLogout :: "store \<Rightarrow> string \<Rightarrow> response \<times> store" where
  "handleLogout st tok =
     (if tok \<noteq> [] then (SuccessOnly, st\<lparr>sessions := deleteSession (sessions st) tok\<rparr>)
      else (SuccessOnly, st))"

definition handleRequestReset ::
  "(nat \<Rightarrow> nat) \<Rightarrow> (mail \<Rightarrow> string option) \<Rightarrow> int \<Rightarrow> store \<Rightarrow> string \<Rightarrow> response \<times> store" where
  "handleRequestReset rnd sendEmail now st em =
     (if em = [] then (Error ''Email is required'', st)
      else case findUserByEmail (users st) em of
        None \<Rightarrow>
          (Success ''If an account exists with this email, a password reset link has been sent.'',
           st)
      | Some (row, u) \<Rightarrow>
          let resetToken = generateToken rnd 0 32;
              expires = now + RESET_TOKEN_DURATION_HOURS * 60 * 60 * 1000;
              users1 = updateUserField (users st) em (Set_reset_token resetToken);
              users2 = updateUserField users1 em (Set_reset_token_expires (Some expires));
              st1 = st\<lparr>users := users2\<rparr>
          in (case sendEmail (ResetEmail em resetToken) of
                Some msg \<Rightarrow> (Thrown (ErrorObject msg), st1)
              | None \<Rightarrow>
                  (Success ''If an account exists with this email, a password reset link has been sent.'',
                   st1\<lparr>outbox := outbox st @ [ResetEmail em resetToken]\<rparr>)))"

text \<open>
  \<open>new Date(cell) < new Date()\<close>: the date of an empty cell is invalid and every
  comparison with it is false.
\<close>

definition dateBefore :: "int option \<Rightarrow> int \<Rightarrow> bool" where
  "dateBefore cell now = (case cell of None \<Rightarrow> False | Some t \<Rightarrow> t < now)"

definition handleResetPassword ::
  "(string \<Rightarrow> int list) \<Rightarrow> (nat \<Rightarrow> nat) \<Rightarrow> int \<Rightarrow> store \<Rightarrow> string \<Rightarrow> string
     \<Rightarrow> response \<times> store" where
  "handleResetPassword digest rnd now st tok newPassword =
     (if tok = [] \<or> newPassword = [] then (Error ''Token and new password are required'', st)
      else if length newPassword < 8 then (Error ''Password must be at least 8 characters'', st)
      else case findUserByResetToken (users st) tok of
        None \<Rightarrow> (Error ''Invalid or expired reset token'', st)
      | Some (row, u) \<Rightarrow>
          if dateBefore (reset_token_expires u) now then (Error ''Reset token has expired'', st)
          else
            let slt = generateToken rnd 0 32;
                passwordHash = hashPassword digest newPassword slt;
                users1 = updateUserField (users st) (email u) (Set_password_hash passwordHash);
                users2 = updateUserField users1 (email u) (Set_salt slt);
                users3 = updateUserField users2 (email u) (Set_reset_token []);
                users4 = updateUserField users3 (email u) (Set_reset_token_expires None);
                users5 = updateUserField users4 (email u) (Set_updated_at now)
            in (Success ''Password updated successfully'', st\<lparr>users := users5\<rparr>))"

text \<open>
  \<open>handleConfirmEmail(token)\<close> answers with a page that redirects to \<open>redirectUrl\<close> and
  shows \<open>message\<close>; the page is modelled by this pair, from which the source builds it.
\<close>

definition APP_URL :: string where
  "APP_URL = ''https://tranquil-taiyaki-cf0922.netlify.app''"

datatype html = Redirect string string | InvalidRequest

definition handleConfirmEmail :: "int \<Rightarrow> store \<Rightarrow> string \<Rightarrow> html \<times> store" where
  "handleConfirmEmail now st tok =
     (case findUserByVerifyToken (users st) tok of
        None \<Rightarrow>
          (Redirect (APP_URL @ ''/confirm.html?error=invalid_token'') ''Token invalido o expirado.'',
           st)
      | Some (row, u) \<Rightarrow>
          if verified u
          then (Redirect (APP_URL @ ''/confirm.html?error=already_verified'')
                  ''Esta cuenta ya fue verificada.'', st)
          else
            let users1 = updateUserField (users st) (email u) (Set_verified True);
                users2 = updateUserField users1 (email u) (Set_verify_token []);
                users3 = updateUserField users2 (email u) (Set_updated_at now)
            in (Redirect (APP_URL @ ''/confirm.html?success=true'')
                  ''Cuenta verificada exitosamente!'', st\<lparr>users := users3\<rparr>))"

definition doGet :: "int \<Rightarrow> store \<Rightarrow> string \<Rightarrow> string \<Rightarrow> html \<times> store" where
  "doGet now st action tok =
     (if action = ''confirmEmail'' \<and> tok \<noteq> [] then handleConfirmEmail now st tok
      else (InvalidRequest, st))"

section \<open>Chat history handlers\<close>

definition handleSaveChatMessage ::
  "string \<Rightarrow> int \<Rightarrow> store \<Rightarrow> string \<Rightarrow> string \<Rightarrow> string \<Rightarrow> string \<Rightarrow> response \<times> store" where
  "handleSaveChatMessage suffix now st tok sid messageType cont =
     (if tok = [] then (Error ''Token is required'', st)
      else case findSessionByToken (sessions st) tok of
        None \<Rightarrow> (Error ''Invalid or expired session'', st)
      | Some (row, s) \<Rightarrow>
          if expires_at s < now then (Error ''Invalid or expired session'', st)
          else
            let messageData = \<lparr>msg_id = (now, suffix), session_id = sid,
                                 msg_user_email = user_email s, message_type = messageType,
                                 content = cont, msg_created_at = now\<rparr>
            in (SavedMessage (now, suffix),
                st\<lparr>chat_history := chat_history st @ [messageData]\<rparr>))"

text \<open>
  \<open>sessionsMap\<close> is a plain object \<open>{}\<close> used as a dictionary keyed by session id. Its own
  properties are the association list, in insertion order. A plain object inherits the
  properties of \<open>Object.prototype\<close>: for one of these names \<open>sessionsMap[name]\<close> is a
  function or object of the platform (truthy) although the name was never stored.
\<close>

record conv_group =
  g_sessionId :: string
  g_messages :: "message list"
  g_firstMessageTime :: int

definition objectPrototypeKeys :: "string list" where
  "objectPrototypeKeys =
     [''constructor'', ''__proto__'', ''hasOwnProperty'', ''isPrototypeOf'',
      ''propertyIsEnumerable'', ''toLocaleString'', ''toString'', ''valueOf'',
      ''__defineGetter__'', ''__defineSetter__'', ''__lookupGetter__'', ''__lookupSetter__'']"

definition toMessage :: "chat_row \<Rightarrow> message" where
  "toMessage row = \<lparr>m_id = msg_id row, m_type = message_type row, m_content = content row,
                     m_created_at = msg_created_at row\<rparr>"

text \<open>
  The body of the grouping loop for one row of the user:
  \<open>if (!sessionsMap[sessionId]) sessionsMap[sessionId] = {...}\<close>, then
  \<open>sessionsMap[sessionId].messages.push({...})\<close>. When the name is inherited the first
  statement stores nothing and the second reads \<open>messages\<close> of the inherited value, which
  is \<open>undefined\<close>, and \<open>push\<close> of \<open>undefined\<close> raises a TypeError.
\<close>

definition pushMessage :: "string \<Rightarrow> message \<Rightarrow> string \<times> conv_group \<Rightarrow> string \<times> conv_group" where
  "pushMessage sid msg entry =
     (if fst entry = sid
      then (fst entry, (snd entry)\<lparr>g_messages := g_messages (snd entry) @ [msg]\<rparr>)
      else entry)"

definition groupRow ::
  "(string \<times> conv_group) list \<Rightarrow> chat_row \<Rightarrow> exn + (string \<times> conv_group) list" where
  "groupRow sessionsMap row =
     (let sid = session_id row;
          map1 = (if map_of sessionsMap sid = None \<and> sid \<notin> set objectPrototypeKeys
                  then sessionsMap @ [(sid, \<lparr>g_sessionId = sid, g_messages = [],
                                              g_firstMessageTime = msg_created_at row\<rparr>)]
                  else sessionsMap)
      in case map_of map1 sid of
           None \<Rightarrow> Inl TypeError
         | Some g \<Rightarrow> Inr (map (pushMessage sid (toMessage row)) map1))"

fun groupRows ::
  "string \<Rightarrow> (string \<times> conv_group) list \<Rightarrow> chat_row list \<Rightarrow> exn + (string \<times> conv_group) list" where
  "groupRows em sessionsMap [] = Inr sessionsMap"
| "groupRows em sessionsMap (row # rows) =
     (if msg_user_email row = em
      then (case groupRow sessionsMap row of
              Inl e \<Rightarrow> Inl e
            | Inr map1 \<Rightarrow> groupRows em map1 rows)
      else groupRows em sessionsMap rows)"

text \<open>
  \<open>Object.values\<close> lists the values of the own properties: first those whose name is an
  array index (the canonical decimal text of an integer below \<open>2^32 - 1\<close>), in ascending
  numeric order, then the others in insertion order.
\<close>

definition isDigit :: "char \<Rightarrow> bool" where
  "isDigit c = (c \<in> set ''0123456789'')"

definition decimal :: "string \<Rightarrow> nat" where
  "decimal s = foldl (\<lambda>n c. 10 * n + (of_char c - 48)) 0 s"

definition arrayIndex :: "string \<Rightarrow> nat option" where
  "arrayIndex s =
     (if s \<noteq> [] \<and> list_all isDigit s \<and> (s = ''0'' \<or> hd s \<noteq> CHR ''0'')
         \<and> decimal s < 4294967295
      then Some (decimal s) else None)"

definition objectValues :: "(string \<times> 'v) list \<Rightarrow> 'v list" where
  "objectValues obj =
     map snd (sort_key (\<lambda>entry. the (arrayIndex (fst entry)))
                (filter (\<lambda>entry. arrayIndex (fst entry) \<noteq> None) obj)
              @ filter (\<lambda>entry. arrayIndex (fst entry) = None) obj)"

text \<open>
  \<open>humanMessages[0]?.content?.substring(0, n) || dflt\<close>: the first \<open>n\<close> characters of the
  first human message, or \<open>dflt\<close> when there is none or they are the empty string.
\<close>

definition firstContent :: "message list \<Rightarrow> nat \<Rightarrow> string \<Rightarrow> string" where
  "firstContent humans n dflt =
     (case humans of
        [] \<Rightarrow> dflt
      | m # ms \<Rightarrow> if take n (m_content m) = [] then dflt else take n (m_content m))"

definition toConversation :: "conv_group \<Rightarrow> conversation" where
  "toConversation conv =
     (let humans = filter (\<lambda>m. m_type m = ''human'') (g_messages conv);
          ais = filter (\<lambda>m. m_type m = ''ai'') (g_messages conv)
      in \<lparr>sessionId = g_sessionId conv,
          title = firstContent humans 50 ''Conversacion'',
          preview = firstContent humans 100 [],
          conv_totalMessages = length (g_messages conv),
          conv_humanMessages = length humans,
          conv_aiMessages = length ais,
          messages = g_messages conv,
          createdAt = g_firstMessageTime conv\<rparr>)"

text \<open>
  \<open>conversations.sort((a, b) => new Date(b.createdAt) - new Date(a.createdAt))\<close>: a stable
  sort, most recent first.
\<close>

definition sortRecentFirst :: "conversation list \<Rightarrow> conversation list" where
  "sortRecentFirst convs = sort_key (\<lambda>c. - createdAt c) convs"

definition handleGetChatHistory :: "int \<Rightarrow> store \<Rightarrow> string \<Rightarrow> response" where
  "handleGetChatHistory now st tok =
     (if tok = [] then Error ''Token is required''
      else case findSessionByToken (sessions st) tok of
        None \<Rightarrow> Error ''Invalid or expired session''
      | Some (row, s) \<Rightarrow>
          if expires_at s < now then Error ''Invalid or expired session''
          else (case groupRows (user_email s) [] (drop 1 (chat_history st)) of
                  Inl e \<Rightarrow> Thrown e
                | Inr sessionsMap \<Rightarrow>
                    ChatHistory (sortRecentFirst (map toConversation (objectValues sessionsMap)))
                      (filter (\<lambda>r. msg_user_email r = user_email s) (drop 1 (chat_history st)))))"

text \<open>
  Chat statistics. The first loop keeps the set of session ids (a \<open>Set\<close>, which
  remembers insertion order), the two counters and \<open>messagesByDay\<close>, whose key is the UTC
  calendar day of the row (\<open>toISOString().split('T')[0]\<close>), here the number of the day
  since the epoch; a day that is not a key counts 0.
\<close>

record tally =
  t_sessions :: "string list"
  t_humanCount :: nat
  t_aiCount :: nat
  t_messagesByDay :: "int \<Rightarrow> nat"

definition dayOf :: "int \<Rightarrow> int" where
  "dayOf t = t div 86400000"

definition setAdd :: "string list \<Rightarrow> string \<Rightarrow> string list" where
  "setAdd xs x = (if x \<in> set xs then xs else xs @ [x])"

definition tallyRow :: "string \<Rightarrow> tally \<Rightarrow> chat_row \<Rightarrow> tally" where
  "tallyRow em acc row =
     (if msg_user_email row = em
      then acc\<lparr>t_sessions := setAdd (t_sessions acc) (session_id row),
               t_humanCount := (if message_type row = ''human'' then t_humanCount acc + 1
                                else t_humanCount acc),
               t_aiCount := (if message_type row = ''human'' then t_aiCount acc
                             else if message_type row = ''ai'' then t_aiCount acc + 1
                             else t_aiCount acc),
               t_messagesByDay := (t_messagesByDay acc)
                  (dayOf (msg_created_at row) := t_messagesByDay acc (dayOf (msg_created_at row)) + 1)\<rparr>
      else acc)"

definition tallyRows :: "string \<Rightarrow> chat_row list \<Rightarrow> tally" where
  "tallyRows em allData =
     foldl (tallyRow em)
       \<lparr>t_sessions = [], t_humanCount = 0, t_aiCount = 0, t_messagesByDay = (\<lambda>d. 0)\<rparr>
       (drop 1 allData)"

text \<open>
  The bars of the last 7 days. \<open>d.setDate(d.getDate() - i)\<close> and \<open>d.getDay()\<close> work in the
  time zone of the script, and \<open>Math.round((count / maxCount) * 100)\<close> in floating point:
  the three belong to the platform and are the parameters \<open>daysBefore\<close> (the instant \<open>i\<close>
  local days before \<open>now\<close>), \<open>getDay\<close> (the local weekday, 0 to 6; it is read modulo 7,
  which leaves a weekday as it is) and \<open>roundPct\<close>.
\<close>

record calendar =
  daysBefore :: "int \<Rightarrow> nat \<Rightarrow> int"
  getDay :: "int \<Rightarrow> nat"
  roundPct :: "nat \<Rightarrow> nat \<Rightarrow> nat"

definition days :: "string list" where
  "days = [''Dom'', ''Lun'', ''Mar'', ''Mie'', ''Jue'', ''Vie'', ''Sab'']"

definition last7Days :: "calendar \<Rightarrow> int \<Rightarrow> (int \<Rightarrow> nat) \<Rightarrow> day_bar list" where
  "last7Days cal now byDay =
     (let bars = map (\<lambda>i. (days ! (getDay cal (daysBefore cal now i) mod 7),
                            byDay (dayOf (daysBefore cal now i))))
                   [6, 5, 4, 3, 2, 1, 0];
          maxCount = foldl max 1 (map snd bars)
      in map (\<lambda>bar. \<lparr>d_label = fst bar, d_count = snd bar,
                      d_percentage = roundPct cal (snd bar) maxCount\<rparr>) bars)"

text \<open>
  The 5 session ids added last, most recent first, each with the number of rows of
  \<open>allData\<close> (its row 0 included) that carry the session id and the user's email.
\<close>

definition recentOf :: "string \<Rightarrow> chat_row list \<Rightarrow> string list \<Rightarrow> recent list" where
  "recentOf em allData sessionList =
     rev (map (\<lambda>sid. \<lparr>r_sessionId = sid,
                        r_messageCount = length (filter (\<lambda>row. session_id row = sid
                                                          \<and> msg_user_email row = em) allData)\<rparr>)
            (drop (length sessionList - 5) sessionList))"

text \<open>
  The earliest and the latest \<open>created_at\<close> of the user's rows, \<open>null\<close> (here \<open>None\<close>)
  when there is none. The source skips a row whose \<open>created_at\<close> cell is empty; a
  timestamp written by saveChatMessage never is.
\<close>

definition dateRange :: "string \<Rightarrow> chat_row list \<Rightarrow> int option \<times> int option" where
  "dateRange em allData =
     foldl (\<lambda>(firstDate, lastDate) row.
              if msg_user_email row = em
              then ((case firstDate of None \<Rightarrow> Some (msg_created_at row)
                     | Some f \<Rightarrow> if msg_created_at row < f then Some (msg_created_at row) else Some f),
                    (case lastDate of None \<Rightarrow> Some (msg_created_at row)
                     | Some l \<Rightarrow> if l < msg_created_at row then Some (msg_created_at row) else Some l))
              else (firstDate, lastDate))
       (None, None) (drop 1 allData)"

definition handleGetChatStats :: "calendar \<Rightarrow> int \<Rightarrow> store \<Rightarrow> string \<Rightarrow> response" where
  "handleGetChatStats cal now st tok =
     (if tok = [] then Error ''Token is required''
      else case findSessionByToken (sessions st) tok of
        None \<Rightarrow> Error ''Invalid or expired session''
      | Some (row, s) \<Rightarrow>
          if expires_at s < now then Error ''Invalid or expired session''
          else
            let allData = chat_history st;
                acc = tallyRows (user_email s) allData
            in ChatStats
                 \<lparr>totalSessions = length (t_sessions acc),
                  totalMessages = t_humanCount acc + t_aiCount acc,
                  humanMessages = t_humanCount acc,
                  aiMessages = t_aiCount acc,
                  messagesByDay = last7Days cal now (t_messagesByDay acc),
                  recentConversations = recentOf (user_email s) allData (t_sessions acc),
                  firstMessageDate = fst (dateRange (user_email s) allData),
                  lastMessageDate = snd (dateRange (user_email s) allData)\<rparr>)"

section \<open>Chat relay (client)\<close>

text \<open>
  The client's \<open>sendMessage\<close> posts the message to the webhook and reads the response
  body as newline-delimited JSON. \<open>JSON.parse\<close> belongs to the platform and is the
  parameter \<open>parse\<close>: \<open>None\<close> where it throws. A number carries the text that string
  concatenation gives it.
\<close>

datatype json =
    JNull
  | JBool bool
  | JNumber string
  | JString string
  | JArray "json list"
  | JObject "(string \<times> json) list"

text \<open>
  \<open>json.name\<close>: reading a property of \<open>null\<close> throws a TypeError; an object gives the
  value of its last member of that name; any other value has no such property
  (\<open>undefined\<close>, here \<open>None\<close>).
\<close>

fun getProp :: "json \<Rightarrow> string \<Rightarrow> exn + json option" where
  "getProp JNull name = Inl TypeError"
| "getProp (JObject members) name = Inr (map_of (rev members) name)"
| "getProp v name = Inr None"

text \<open>
  Truthiness of a property value (\<open>None\<close> is \<open>undefined\<close>) and the text that \<open>+=\<close> and
  \<open>new Error(...)\<close> make of a value.
\<close>

fun truthy :: "json option \<Rightarrow> bool" where
  "truthy None = False"
| "truthy (Some JNull) = False"
| "truthy (Some (JBool b)) = b"
| "truthy (Some (JNumber s)) = (s \<noteq> ''0'')"
| "truthy (Some (JString s)) = (s \<noteq> [])"
| "truthy (Some v) = True"

fun joinComma :: "string list \<Rightarrow> string" where
  "joinComma [] = []"
| "joinComma [s] = s"
| "joinComma (s # ss) = s @ '','' @ joinComma ss"

fun toStr :: "json \<Rightarrow> string" where
  "toStr JNull = ''null''"
| "toStr (JBool b) = (if b then ''true'' else ''false'')"
| "toStr (JNumber s) = s"
| "toStr (JString s) = s"
| "toStr (JArray vs) = joinComma (map (\<lambda>v. if v = JNull then [] else toStr v) vs)"
| "toStr (JObject members) = ''[object Object]''"

text \<open>
  \<open>text.trim()\<close> split at the line feeds: \<open>trim\<close> removes white space and line
  terminators at both ends; \<open>split\<close> always returns at least one line.
\<close>

definition isWhiteSpace :: "char \<Rightarrow> bool" where
  "isWhiteSpace c = (c \<in> {CHR 0x09, CHR 0x0A, CHR 0x0B, CHR 0x0C, CHR 0x0D, CHR 0x20, CHR 0xA0})"

definition trim :: "string \<Rightarrow> string" where
  "trim s = rev (dropWhile isWhiteSpace (rev (dropWhile isWhiteSpace s)))"

fun splitLines :: "string \<Rightarrow> string list" where
  "splitLines [] = [[]]"
| "splitLines (c # cs) =
     (if c = CHR 0x0A then [] # splitLines cs
      else (case splitLines cs of [] \<Rightarrow> [[c]] | l # ls \<Rightarrow> (c # l) # ls))"

text \<open>
  The body of the \<open>try\<close> for one line, \<open>tryLine\<close>, returns the new \<open>fullContent\<close> or the
  exception it raises: the SyntaxError of \<open>JSON.parse\<close>, the TypeError of a property read
  on \<open>null\<close>, or the \<open>Error\<close> that the source throws for a line of kind "error". The
  \<open>catch\<close> around it, \<open>lineStep\<close>, has an empty body: whatever the exception, the loop goes
  on with \<open>fullContent\<close> as it was.
\<close>

definition tryLine :: "(string \<Rightarrow> json option) \<Rightarrow> string \<Rightarrow> string \<Rightarrow> exn + string" where
  "tryLine parse fullContent line =
     (case parse line of
        None \<Rightarrow> Inl SyntaxError
      | Some json \<Rightarrow>
          (case getProp json ''type'' of
             Inl e \<Rightarrow> Inl e
           | Inr ty \<Rightarrow>
               (case getProp json ''content'' of
                  Inl e \<Rightarrow> Inl e
                | Inr co \<Rightarrow>
                    if ty = Some (JString ''item'') \<and> truthy co
                    then Inr (fullContent @ toStr (the co))
                    else if ty = Some (JString ''error'')
                    then Inl (ErrorObject (if truthy co then toStr (the co) else ''Error from n8n''))
                    else Inr fullContent)))"

definition lineStep :: "(string \<Rightarrow> json option) \<Rightarrow> string \<Rightarrow> string \<Rightarrow> string" where
  "lineStep parse fullContent line =
     (case tryLine parse fullContent line of
        Inl e \<Rightarrow> fullContent
      | Inr fc \<Rightarrow> fc)"

text \<open>
  The result \<open>{data, error}\<close> of \<open>sendMessage\<close>: \<open>Failed msg\<close> is \<open>{data: null, error}\<close> with
  that message, \<open>Data (Parsed v)\<close> is \<open>{data: v, error: null}\<close> for the parsed body and
  \<open>Data (Output s)\<close> is \<open>{data: {output: s}, error: null}\<close>. \<open>readBody\<close> is the part of
  \<open>sendMessage\<close> that follows \<open>response.text()\<close>.
\<close>

datatype chat_data = Parsed json | Output string

datatype send_result = Failed string | Data chat_data

definition readBody :: "(string \<Rightarrow> json option) \<Rightarrow> string \<Rightarrow> send_result" where
  "readBody parse text =
     (let lines = splitLines (trim text);
          fullContent = foldl (lineStep parse) [] lines
      in if fullContent = [] \<and> length lines = 1
         then (case parse (lines ! 0) of
                 Some data \<Rightarrow> Data (Parsed data)
               | None \<Rightarrow> Data (Output text))
         else Data (Output (if fullContent \<noteq> [] then fullContent else text)))"

text \<open>
  What \<open>fetch\<close> gives: an exception with its message, or a response with \<open>ok\<close>, the
  decimal text of \<open>status\<close> and the body.
\<close>

datatype http = NetworkError string | Response bool string string

definition sendMessage :: "(string \<Rightarrow> json option) \<Rightarrow> string \<Rightarrow> http \<Rightarrow> send_result" where
  "sendMessage parse message reply =
     (if trim message = [] then Failed ''Message cannot be empty''
      else case reply of
        NetworkError msg \<Rightarrow> Failed msg
      | Response ok status text \<Rightarrow>
          if \<not> ok then Failed (''HTTP error! status: '' @ status)
          else readBody parse text)"

section \<open>Example sheets\<close>

text \<open>
  Concrete sheets on which the theorems below are instantiated. Row 0 of each is the
  header row of the setup instructions; its cells are never read as data.
\<close>

definition headerUser :: user where
  "headerUser = \<lparr>email = ''email'', username = ''username'', password_hash = ''password_hash'',
                  salt = ''salt'', created_at = 0, verified = True, verify_token = ''verify_token'',
                  reset_token = ''reset_token'', reset_token_expires = None, updated_at = 0\<rparr>"

definition headerSession :: session where
  "headerSession = \<lparr>token = ''token'', user_email = ''user_email'', session_created_at = 0,
                     expires_at = 0\<rparr>"

definition ann :: user where
  "ann = \<lparr>email = ''a@x.com'', username = ''ann'', password_hash = ''70617373776f72643153'',
           salt = ''S'', created_at = 5, verified = True, verify_token = [], reset_token = ''R1'',
           reset_token_expires = Some 900, updated_at = 5\<rparr>"

definition bob :: user where
  "bob = \<lparr>email = ''b@x.com'', username = ''bob'', password_hash = ''2a'', salt = ''T'',
           created_at = 6, verified = False, verify_token = ''V2'', reset_token = [],
           reset_token_expires = None, updated_at = 6\<rparr>"

definition annSession :: session where
  "annSession = \<lparr>token = ''tokA'', user_email = ''a@x.com'', session_created_at = 100,
                  expires_at = 604800100\<rparr>"

text \<open>
  A digest that is injective, for the examples: the bytes of the input itself. With it
  \<open>ann\<close>'s password is \<open>password1\<close>. \<open>rnd0\<close> is the random source that always
  selects index 0.
\<close>

definition digest0 :: "string \<Rightarrow> int list" where
  "digest0 input = map (\<lambda>c. int (of_char c)) input"

definition rnd0 :: "nat \<Rightarrow> nat" where
  "rnd0 k = 0"

text \<open>A mail service that accepts every mail but those to one address it cannot mail to.\<close>

definition mailer0 :: "mail \<Rightarrow> string option" where
  "mailer0 m = (if recipient m = ''not-an-address'' then Some ''Invalid email: not-an-address''
                else None)"

definition store0 :: store where
  "store0 = \<lparr>users = [headerUser, ann, bob], sessions = [headerSession, annSession],
              chat_history = [], outbox = []\<rparr>"

text \<open>
  A chat_history sheet with a row whose type is neither human nor ai, one whose only data
  row carries the session id \<open>constructor\<close>, and a calendar for a script that runs in
  UTC and rounds exactly.
\<close>

definition cal0 :: calendar where
  "cal0 = \<lparr>daysBefore = (\<lambda>now i. now - int i * 86400000),
            getDay = (\<lambda>t. nat ((t div 86400000 + 4) mod 7)),
            roundPct = (\<lambda>c m. (200 * c + m) div (2 * m))\<rparr>"

definition headerChat :: chat_row where
  "headerChat = \<lparr>msg_id = (0, ''id''), session_id = ''session_id'', msg_user_email = ''user_email'',
                  message_type = ''message_type'', content = ''content'', msg_created_at = 0\<rparr>"

definition chat0 :: "chat_row list" where
  "chat0 =
     [headerChat,
      \<lparr>msg_id = (86400001, ''a''), session_id = ''s1'', msg_user_email = ''a@x.com'',
        message_type = ''human'', content = ''hola'', msg_created_at = 86400001\<rparr>,
      \<lparr>msg_id = (86400002, ''b''), session_id = ''s2'', msg_user_email = ''a@x.com'',
        message_type = ''system'', content = ''note'', msg_created_at = 86400002\<rparr>,
      \<lparr>msg_id = (86400003, ''c''), session_id = ''s1'', msg_user_email = ''a@x.com'',
        message_type = ''ai'', content = ''que tal'', msg_created_at = 86400003\<rparr>]"


definition chat1 :: "chat_row list" where
  "chat1 =
     [headerChat,
      \<lparr>msg_id = (86400001, ''a''), session_id = ''constructor'', msg_user_email = ''a@x.com'',
        message_type = ''human'', content = ''hola'', msg_created_at = 86400001\<rparr>]"

text \<open>Two lines of a webhook response and what \<open>JSON.parse\<close> returns for them.\<close>

definition errorLine :: string where
  \<open>errorLine = ''{"type":"error","content":"boom"}''\<close>

definition itemLine :: string where
  \<open>itemLine = ''{"type":"item","content":"hi"}''\<close>

definition parse0 :: "string \<Rightarrow> json option" where
  "parse0 line =
     (if line = errorLine then Some (JObject [(''type'', JString ''error''), (''content'', JString ''boom'')])
      else if line = itemLine then Some (JObject [(''type'', JString ''item''), (''content'', JString ''hi'')])
      else None)"

section \<open>Unfolding the examples\<close>

lemmas ex_defs = store0_def headerUser_def ann_def bob_def headerSession_def annSession_def rnd0_def
  mailer0_def

lemmas hash_defs = hashPassword_def hexDigest_def hexByte_def toString16_def hexDigit_def digest0_def

section \<open>Scanning a sheet\<close>

lemma scanRows_Some:
  "scanRows P i rs = Some (row, r) \<Longrightarrow>
     \<exists>k<length rs. row = i + k + 1 \<and> rs ! k = r \<and> P r \<and> (\<forall>j<k. \<not> P (rs ! j))"
proof (induction rs arbitrary: i)
  case Nil
  then show ?case by simp
next
  case (Cons a rs)
  show ?case
  proof (cases "P a")
    case True
    with Cons.prems show ?thesis by (intro exI[of _ 0]) auto
  next
    case False
    with Cons.prems have "scanRows P (i + 1) rs = Some (row, r)" by simp
    from Cons.IH[OF this] obtain k where k: "k < length rs" "row = i + 1 + k + 1" "rs ! k = r" "P r"
      "\<forall>j<k. \<not> P (rs ! j)" by blast
    show ?thesis
    proof (intro exI[of _ "Suc k"] conjI allI impI)
      fix j assume "j < Suc k"
      then show "\<not> P ((a # rs) ! j)" using False k(5) by (cases j) auto
    qed (use k in auto)
  qed
qed

lemma scanRows_None: "scanRows P i rs = None \<longleftrightarrow> (\<forall>r\<in>set rs. \<not> P r)"
  by (induction rs arbitrary: i) auto

lemma scanRows_first:
  "k < length rs \<Longrightarrow> P (rs ! k) \<Longrightarrow> (\<forall>j<k. \<not> P (rs ! j)) \<Longrightarrow>
     scanRows P i rs = Some (i + k + 1, rs ! k)"
proof (induction rs arbitrary: i k)
  case Nil
  then show ?case by simp
next
  case (Cons a rs)
  show ?case
  proof (cases k)
    case 0
    with Cons.prems show ?thesis by simp
  next
    case (Suc m)
    from Cons.prems Suc have na: "\<not> P a" by fastforce
    have "scanRows P (i + 1) rs = Some (i + 1 + m + 1, rs ! m)"
    proof (rule Cons.IH)
      show "m < length rs" using Cons.prems Suc by simp
      show "P (rs ! m)" using Cons.prems Suc by simp
      show "\<forall>j<m. \<not> P (rs ! j)" using Cons.prems(3) Suc by fastforce
    qed
    with na Suc show ?thesis by simp
  qed
qed

lemma scanRows_distinct:
  assumes "distinct (map f rs)" "k < length rs"
  shows "scanRows (\<lambda>r. f r = f (rs ! k)) i rs = Some (i + k + 1, rs ! k)"
proof (rule scanRows_first)
  show "\<forall>j<k. f (rs ! j) \<noteq> f (rs ! k)"
    using assms by (auto simp: distinct_conv_nth)
qed (use assms in auto)

lemma distinct_nth_notin_rest:
  assumes "distinct (map f rs)" "k < length rs"
  shows "f (rs ! k) \<notin> f ` set (take k rs @ drop (Suc k) rs)"
proof -
  have "rs = take k rs @ rs ! k # drop (Suc k) rs"
    using assms(2) by (rule id_take_nth_drop)
  then have "distinct (map f (take k rs @ rs ! k # drop (Suc k) rs))"
    using assms(1) by simp
  then show ?thesis by auto
qed

lemma scan_sheet_Some:
  assumes "scanRows P 1 (drop 1 data) = Some (row, r)"
  shows "2 \<le> row \<and> row \<le> length data \<and> data ! (row - 1) = r \<and> P r
         \<and> (\<forall>j. 1 \<le> j \<and> j < row - 1 \<longrightarrow> \<not> P (data ! j))"
proof -
  from scanRows_Some[OF assms] obtain k where k: "k < length (drop 1 data)" "row = 1 + k + 1"
    "drop 1 data ! k = r" "P r" "\<forall>j<k. \<not> P (drop 1 data ! j)" by blast
  have "\<not> P (data ! j)" if "1 \<le> j" "j < row - 1" for j
  proof -
    from that k(2) have "j - 1 < k" by simp
    with k(5) have "\<not> P (drop 1 data ! (j - 1))" by blast
    moreover have "drop 1 data ! (j - 1) = data ! j" using that k(1,2) by simp
    ultimately show ?thesis by simp
  qed
  moreover have "data ! (row - 1) = r" using k(1,2,3) by simp
  ultimately show ?thesis using k(1,2,4) by auto
qed

lemma scan_sheet_first:
  assumes "1 \<le> i" "i < length data" "P (data ! i)" "\<forall>j. 1 \<le> j \<and> j < i \<longrightarrow> \<not> P (data ! j)"
  shows "scanRows P 1 (drop 1 data) = Some (i + 1, data ! i)"
proof -
  have nth: "drop 1 data ! j = data ! (j + 1)" if "j < i" for j
    using that assms(2) by simp
  have "scanRows P 1 (drop 1 data) = Some (1 + (i - 1) + 1, drop 1 data ! (i - 1))"
  proof (rule scanRows_first)
    show "i - 1 < length (drop 1 data)" using assms(1,2) by simp
    show "P (drop 1 data ! (i - 1))" using assms(1,3) nth[of "i - 1"] by simp
    show "\<forall>j<i - 1. \<not> P (drop 1 data ! j)"
    proof (intro allI impI)
      fix j assume "j < i - 1"
      then have "j < i" "1 \<le> j + 1" "j + 1 < i" by simp_all
      with nth[of j] assms(4) show "\<not> P (drop 1 data ! j)" by simp
    qed
  qed
  then show ?thesis using assms(1) nth[of "i - 1"] by simp
qed

lemma scan_sheet_update:
  assumes "scanRows P 1 (drop 1 data) = Some (row, r)" "P r'"
  shows "scanRows P 1 (drop 1 (data[row - 1 := r'])) = Some (row, r')"
proof -
  let ?d = "data[row - 1 := r']"
  from scan_sheet_Some[OF assms(1)] have s: "2 \<le> row" "row \<le> length data"
    "\<forall>j. 1 \<le> j \<and> j < row - 1 \<longrightarrow> \<not> P (data ! j)" by auto
  have "scanRows P 1 (drop 1 ?d) = Some (row - 1 + 1, ?d ! (row - 1))"
  proof (rule scan_sheet_first)
    show "1 \<le> row - 1" "row - 1 < length ?d" using s(1,2) by simp_all
    show "P (?d ! (row - 1))" using s(1,2) assms(2) by simp
    show "\<forall>j. 1 \<le> j \<and> j < row - 1 \<longrightarrow> \<not> P (?d ! j)" using s(3) by simp
  qed
  then show ?thesis using s(1,2) by simp
qed

lemma email_setValue [simp]: "email (setValue w u) = email u"
  by (cases w) simp_all

lemma updateUserField_found:
  assumes "findUserByEmail data e = Some (row, u)"
  shows "updateUserField data e w = data[row - 1 := setValue w u]"
    and "findUserByEmail (updateUserField data e w) e = Some (row, setValue w u)"
proof -
  from assms have sc: "scanRows (\<lambda>r. email r = e) 1 (drop 1 data) = Some (row, u)"
    by (simp add: findUserByEmail_def)
  from scan_sheet_Some[OF sc] have u: "data ! (row - 1) = u" "email u = e" by auto
  show upd: "updateUserField data e w = data[row - 1 := setValue w u]"
    using assms u by (simp add: updateUserField_def)
  have "scanRows (\<lambda>r. email r = e) 1 (drop 1 (data[row - 1 := setValue w u])) = Some (row, setValue w u)"
    using sc by (rule scan_sheet_update) (simp add: u)
  then show "findUserByEmail (updateUserField data e w) e = Some (row, setValue w u)"
    by (simp add: upd findUserByEmail_def)
qed

lemma distinct_email_first:
  assumes "distinct (map email (drop 1 data))" "2 \<le> row" "row \<le> length data"
  shows "findUserByEmail data (email (data ! (row - 1))) = Some (row, data ! (row - 1))"
proof -
  have "scanRows (\<lambda>r. email r = email (drop 1 data ! (row - 2))) 1 (drop 1 data)
          = Some (1 + (row - 2) + 1, drop 1 data ! (row - 2))"
    using assms by (intro scanRows_distinct) simp_all
  moreover have "drop 1 data ! (row - 2) = data ! (row - 1)"
    using assms(2,3) by (simp add: numeral_2_eq_2 Suc_diff_Suc)
  ultimately show ?thesis using assms(2) by (simp add: findUserByEmail_def)
qed

lemma scanRows_append:
  "scanRows P i (xs @ ys) =
     (case scanRows P i xs of Some x \<Rightarrow> Some x | None \<Rightarrow> scanRows P (i + length xs) ys)"
  by (induction xs arbitrary: i) (auto simp: add.commute add.left_commute split: option.splits)

lemma length_generateToken: "length (generateToken rnd off len) = len"
  by (simp add: generateToken_def)

lemma generateToken_nonempty: "0 < len \<Longrightarrow> generateToken rnd off len \<noteq> []"
  by (simp add: generateToken_def)


section \<open>Sessions\<close>

lemma findSessionByToken_distinct:
  assumes "1 \<le> i" "i < length data" "distinct (map token (drop 1 data))"
  shows "findSessionByToken data (token (data ! i)) = Some (i + 1, data ! i)"
proof -
  let ?rs = "drop 1 data"
  have k: "i - 1 < length ?rs" and nth: "?rs ! (i - 1) = data ! i"
    using assms(1,2) by auto
  from scanRows_distinct[OF assms(3) k, of 1] nth assms(1)
  show ?thesis by (simp add: findSessionByToken_def)
qed

lemma findSessionByToken_deleted:
  assumes "1 \<le> i" "i < length data" "distinct (map token (drop 1 data))"
  shows "findSessionByToken (deleteRow (i + 1) data) (token (data ! i)) = None"
proof -
  let ?rs = "drop 1 data"
  have k: "i - 1 < length ?rs" and nth: "?rs ! (i - 1) = data ! i"
    using assms(1,2) by auto
  have "drop 1 (deleteRow (i + 1) data) = take (i - 1) ?rs @ drop (Suc (i - 1)) ?rs"
    using assms(1,2) by (cases i) (auto simp: deleteRow_def drop_take)
  moreover have "token (?rs ! (i - 1)) \<notin> token ` set (take (i - 1) ?rs @ drop (Suc (i - 1)) ?rs)"
    using assms(3) k by (rule distinct_nth_notin_rest)
  ultimately have "\<forall>r\<in>set (drop 1 (deleteRow (i + 1) data)). token r \<noteq> token (data ! i)"
    using nth by (metis imageI)
  then show ?thesis
    unfolding findSessionByToken_def scanRows_None by simp
qed

text \<open>
  Claim C1. Take any data row \<open>i\<close> (\<open>i \<ge> 1\<close>) of the sessions sheet whose \<open>expires_at\<close> lies
  before the current time, in a sheet that respects the data model: tokens are the key of
  the sheet (no two data rows share one) and are not empty. validateSession with that
  row's token answers the error "Session expired" and removes exactly that row; a second
  validateSession with the same token, at any later time \<open>now'\<close>, answers the error
  "Invalid session" and leaves the store, the sessions sheet included, as it was.
\<close>

theorem validate_expired_session:
  assumes "1 \<le> i" and "i < length (sessions st)"
    and "token (sessions st ! i) \<noteq> []"
    and "distinct (map token (drop 1 (sessions st)))"
    and "expires_at (sessions st ! i) < now"
  shows "handleValidateSession now st (token (sessions st ! i)) =
           (Error ''Session expired'', st\<lparr>sessions := deleteRow (i + 1) (sessions st)\<rparr>)
       \<and> handleValidateSession now' (st\<lparr>sessions := deleteRow (i + 1) (sessions st)\<rparr>)
             (token (sessions st ! i)) =
           (Error ''Invalid session'', st\<lparr>sessions := deleteRow (i + 1) (sessions st)\<rparr>)"
proof
  have found: "findSessionByToken (sessions st) (token (sessions st ! i)) = Some (i + 1, sessions st ! i)"
    using assms(1,2,4) by (rule findSessionByToken_distinct)
  then show "handleValidateSession now st (token (sessions st ! i)) =
           (Error ''Session expired'', st\<lparr>sessions := deleteRow (i + 1) (sessions st)\<rparr>)"
    using assms(3,5) by (simp add: handleValidateSession_def deleteSession_def)
  have gone: "findSessionByToken (deleteRow (i + 1) (sessions st)) (token (sessions st ! i)) = None"
    using assms(1,2,4) by (rule findSessionByToken_deleted)
  then show "handleValidateSession now' (st\<lparr>sessions := deleteRow (i + 1) (sessions st)\<rparr>)
             (token (sessions st ! i)) =
           (Error ''Invalid session'', st\<lparr>sessions := deleteRow (i + 1) (sessions st)\<rparr>)"
    using assms(3) by (simp add: handleValidateSession_def)
qed

theorem validate_expired_session_witness:
  "handleValidateSession 604800101 store0 ''tokA'' =
     (Error ''Session expired'', store0\<lparr>sessions := [headerSession]\<rparr>)
   \<and> handleValidateSession 604800102 (store0\<lparr>sessions := [headerSession]\<rparr>) ''tokA'' =
     (Error ''Invalid session'', store0\<lparr>sessions := [headerSession]\<rparr>)"
  using validate_expired_session [of 1 store0 604800101 604800102]
  by (simp add: store0_def annSession_def headerSession_def deleteRow_def)

text \<open>
  Claim C6, as stated, fails at the instant the clock equals \<open>expires_at\<close>: the source
  tests \<open>new Date(session.expires_at) < new Date()\<close>, so the session of \<open>ann\<close>, which
  expires at 604800100, is still valid at 604800100.
\<close>

theorem session_valid_at_expiry_counterexample:
  "findSessionByToken (sessions store0) ''tokA'' = Some (2, annSession)
   \<and> expires_at annSession = 604800100
   \<and> handleValidateSession 604800100 store0 ''tokA'' = (Valid (summary ann), store0)"
  by (simp add: handleValidateSession_def findSessionByToken_def findUserByEmail_def ex_defs)


text \<open>
  Claim C6, amended. Every session row that login appends has
  \<open>expires_at = created_at + 7 days\<close> (in milliseconds), and for a session row found by
  its token whose user exists, validateSession answers the valid payload if and only if
  the current time is less than or equal to \<open>expires_at\<close>; it answers "Session expired"
  if and only if \<open>expires_at\<close> is strictly before the current time. At the instant the
  clock equals \<open>expires_at\<close> the session is still valid.
\<close>

theorem session_expiry_rule:
  "(handleLogin digest rnd now st em pw = (LoginSuccess t e us, st1) \<longrightarrow>
      (\<exists>s. sessions st1 = sessions st @ [s] \<and> token s = t \<and> expires_at s = e
           \<and> session_created_at s = now
           \<and> expires_at s = session_created_at s + 7 * 24 * 60 * 60 * 1000))
   \<and> (tok \<noteq> [] \<and> findSessionByToken (sessions st) tok = Some (row, s')
        \<and> findUserByEmail (users st) (user_email s') = Some (urow, u) \<longrightarrow>
        (handleValidateSession now' st tok = (Valid (summary u), st) \<longleftrightarrow> now' \<le> expires_at s')
        \<and> (fst (handleValidateSession now' st tok) = Error ''Session expired''
              \<longleftrightarrow> expires_at s' < now'))"
proof (intro conjI impI)
  assume "handleLogin digest rnd now st em pw = (LoginSuccess t e us, st1)"
  then show "\<exists>s. sessions st1 = sessions st @ [s] \<and> token s = t \<and> expires_at s = e
           \<and> session_created_at s = now
           \<and> expires_at s = session_created_at s + 7 * 24 * 60 * 60 * 1000"
    by (auto simp: handleLogin_def Let_def SESSION_DURATION_DAYS_def split: if_splits option.splits)
next
  assume a: "tok \<noteq> [] \<and> findSessionByToken (sessions st) tok = Some (row, s')
        \<and> findUserByEmail (users st) (user_email s') = Some (urow, u)"
  then show "handleValidateSession now' st tok = (Valid (summary u), st) \<longleftrightarrow> now' \<le> expires_at s'"
    by (auto simp: handleValidateSession_def)
  from a show "fst (handleValidateSession now' st tok) = Error ''Session expired''
              \<longleftrightarrow> expires_at s' < now'"
    by (auto simp: handleValidateSession_def)
qed

theorem session_expiry_rule_witness:
  "(\<exists>s. sessions (snd (handleLogin digest0 rnd0 100 store0 ''a@x.com'' ''password1''))
           = sessions store0 @ [s]
        \<and> session_created_at s = 100 \<and> expires_at s = 604800100)
   \<and> handleValidateSession 604800100 store0 ''tokA'' = (Valid (summary ann), store0)
   \<and> fst (handleValidateSession 604800101 store0 ''tokA'') = Error ''Session expired''"
proof -
  have l: "handleLogin digest0 rnd0 100 store0 ''a@x.com'' ''password1'' =
     (LoginSuccess (generateToken rnd0 0 64) 604800100 (summary ann),
      snd (handleLogin digest0 rnd0 100 store0 ''a@x.com'' ''password1''))"
    by (simp add: handleLogin_def findUserByEmail_def Let_def SESSION_DURATION_DAYS_def store0_def)
       (simp add: hash_defs ex_defs)
  have f: "findSessionByToken (sessions store0) ''tokA'' = Some (2, annSession)"
    by (simp add: findSessionByToken_def ex_defs)
  have g: "findUserByEmail (users store0) (user_email annSession) = Some (2, ann)"
    by (simp add: findUserByEmail_def ex_defs)
  have x: "expires_at annSession = 604800100" by (simp add: annSession_def)
  from session_expiry_rule [of digest0 rnd0 100 store0 "''a@x.com''" "''password1''"
      "generateToken rnd0 0 64" 604800100 "summary ann"
      "snd (handleLogin digest0 rnd0 100 store0 ''a@x.com'' ''password1'')"
      "''tokA''" 2 annSession 2 ann 604800100]
    session_expiry_rule [of digest0 rnd0 100 store0 "''a@x.com''" "''password1''"
      "generateToken rnd0 0 64" 604800100 "summary ann"
      "snd (handleLogin digest0 rnd0 100 store0 ''a@x.com'' ''password1'')"
      "''tokA''" 2 annSession 2 ann 604800101]
    l f g x
  show ?thesis by auto
qed

section \<open>Login\<close>

text \<open>
  Claim C5. A login request with an unknown email and a login request whose password hash
  does not match the stored one get the same response, the error
  "Invalid login credentials", and the store is untouched in both; a login request for a
  user whose email is not verified gets a different error. (The two fields are present in
  all three requests.)
\<close>

theorem login_failures_indistinguishable:
  assumes "em1 \<noteq> []" "pw1 \<noteq> []" "em2 \<noteq> []" "pw2 \<noteq> []" "em3 \<noteq> []" "pw3 \<noteq> []"
    and unknown: "findUserByEmail (users st1) em1 = None"
    and mismatch: "findUserByEmail (users st2) em2 = Some (row2, u2)" "verified u2"
      "hashPassword digest pw2 (salt u2) \<noteq> password_hash u2"
    and unverified: "findUserByEmail (users st3) em3 = Some (row3, u3)" "\<not> verified u3"
  shows "handleLogin digest rnd1 now1 st1 em1 pw1 = (Error ''Invalid login credentials'', st1)
     \<and> handleLogin digest rnd2 now2 st2 em2 pw2 = (Error ''Invalid login credentials'', st2)
     \<and> fst (handleLogin digest rnd1 now1 st1 em1 pw1) = fst (handleLogin digest rnd2 now2 st2 em2 pw2)
     \<and> handleLogin digest rnd3 now3 st3 em3 pw3 =
           (Error ''Email not confirmed. Please check your inbox.'', st3)
     \<and> fst (handleLogin digest rnd3 now3 st3 em3 pw3) \<noteq> fst (handleLogin digest rnd1 now1 st1 em1 pw1)"
  using assms by (simp add: handleLogin_def)


theorem login_failures_indistinguishable_witness:
  "handleLogin digest0 rnd0 10 store0 ''nobody@x.com'' ''password1'' =
      (Error ''Invalid login credentials'', store0)
   \<and> handleLogin digest0 rnd0 10 store0 ''a@x.com'' ''wrong'' =
      (Error ''Invalid login credentials'', store0)
   \<and> handleLogin digest0 rnd0 10 store0 ''b@x.com'' ''password1'' =
      (Error ''Email not confirmed. Please check your inbox.'', store0)"
proof -
  have a: "findUserByEmail (users store0) ''nobody@x.com'' = None"
    by (simp add: findUserByEmail_def ex_defs)
  have b: "findUserByEmail (users store0) ''a@x.com'' = Some (2, ann)"
    by (simp add: findUserByEmail_def ex_defs)
  have c: "findUserByEmail (users store0) ''b@x.com'' = Some (3, bob)"
    by (simp add: findUserByEmail_def ex_defs)
  have h: "hashPassword digest0 ''wrong'' (salt ann) \<noteq> password_hash ann"
    by (simp add: hash_defs ann_def)
  have va: "verified ann" and vb: "\<not> verified bob" by (simp_all add: ann_def bob_def)
  from login_failures_indistinguishable [OF _ _ _ _ _ _ a b va h c vb,
      where ?pw1.0 = "''password1''" and ?pw3.0 = "''password1''"
        and ?rnd1.0 = rnd0 and ?rnd2.0 = rnd0 and ?rnd3.0 = rnd0
        and ?now1.0 = 10 and ?now2.0 = 10 and ?now3.0 = 10]
  show ?thesis by simp
qed

section \<open>Password reset\<close>

lemma requestReset_response_mail_sent:
  "\<forall>m. sendEmail m = None \<Longrightarrow>
     fst (handleRequestReset rnd sendEmail now st em) =
       (if em = [] then Error ''Email is required''
        else Success ''If an account exists with this email, a password reset link has been sent.'')"
  by (simp add: handleRequestReset_def Let_def split: option.splits)

text \<open>
  Claim C7: where the code fails. The source says "Always return success to not reveal if
  email exists", but only the branch for an existing user calls \<open>sendResetEmail\<close>, and an
  exception of the mail service there is not caught by the handler: \<open>doPost\<close> answers it
  with \<open>{error: msg}\<close>, while the same request for an email without a row gets the
  success message. Such a row is reachable: signup appends the row before it mails, so a
  signup with an address the service cannot mail to leaves the row behind. Where the
  mail is accepted the response is the same with and without the row
  (\<open>requestReset_response_mail_sent\<close>).
\<close>

theorem requestReset_mail_failure_reveals_user:
  "fst (handleSignup digest0 rnd0 mailer0 1 store0 ''not-an-address'' ''pw123456'' ''cy'') =
      Thrown (ErrorObject ''Invalid email: not-an-address'')
   \<and> findUserByEmail
        (users (snd (handleSignup digest0 rnd0 mailer0 1 store0 ''not-an-address'' ''pw123456'' ''cy'')))
        ''not-an-address'' \<noteq> None
   \<and> fst (handleRequestReset rnd0 mailer0 10
        (snd (handleSignup digest0 rnd0 mailer0 1 store0 ''not-an-address'' ''pw123456'' ''cy''))
        ''not-an-address'') = Thrown (ErrorObject ''Invalid email: not-an-address'')
   \<and> findUserByEmail (users store0) ''not-an-address'' = None
   \<and> fst (handleRequestReset rnd0 mailer0 10 store0 ''not-an-address'') =
      Success ''If an account exists with this email, a password reset link has been sent.''"
proof -
  have n: "findUserByEmail (users store0) ''not-an-address'' = None"
    by (simp add: findUserByEmail_def ex_defs)
  have s: "handleSignup digest0 rnd0 mailer0 1 store0 ''not-an-address'' ''pw123456'' ''cy'' =
     (Thrown (ErrorObject ''Invalid email: not-an-address''),
      store0\<lparr>users := users store0 @
        [\<lparr>email = ''not-an-address'', username = ''cy'',
          password_hash = hashPassword digest0 ''pw123456'' (generateToken rnd0 0 32),
          salt = generateToken rnd0 0 32, created_at = 1, verified = False,
          verify_token = generateToken rnd0 32 32, reset_token = [],
          reset_token_expires = None, updated_at = 1\<rparr>]\<rparr>)"
    by (simp add: handleSignup_def n Let_def mailer0_def)
  have f: "findUserByEmail
        (users (snd (handleSignup digest0 rnd0 mailer0 1 store0 ''not-an-address'' ''pw123456'' ''cy'')))
        ''not-an-address'' \<noteq> None"
    unfolding s by (simp add: findUserByEmail_def ex_defs)
  have r: "fst (handleRequestReset rnd0 mailer0 10
        (snd (handleSignup digest0 rnd0 mailer0 1 store0 ''not-an-address'' ''pw123456'' ''cy''))
        ''not-an-address'') = Thrown (ErrorObject ''Invalid email: not-an-address'')"
    using f by (auto simp: handleRequestReset_def Let_def mailer0_def)
  have a: "fst (handleRequestReset rnd0 mailer0 10 store0 ''not-an-address'') =
      Success ''If an account exists with this email, a password reset link has been sent.''"
    by (simp add: handleRequestReset_def n)
  from s n f r a show ?thesis by simp
qed

text \<open>
  Claim C9. Whenever resetPassword answers an error, the store after the request is the
  store before it, so no cell of the users sheet has been written; and it answers an
  error in each of the cases: token or password missing, password shorter than 8
  characters, reset token not found, reset token expired.
\<close>

theorem resetPassword_error_no_write:
  "(fst (handleResetPassword digest rnd now st tok newPassword) = Error e
      \<longrightarrow> snd (handleResetPassword digest rnd now st tok newPassword) = st)
   \<and> (tok = [] \<or> newPassword = [] \<or> length newPassword < 8
        \<or> findUserByResetToken (users st) tok = None
        \<or> (\<exists>row u. findUserByResetToken (users st) tok = Some (row, u)
              \<and> dateBefore (reset_token_expires u) now)
      \<longrightarrow> (\<exists>e'. handleResetPassword digest rnd now st tok newPassword = (Error e', st)))"
  by (auto simp: handleResetPassword_def Let_def split: option.splits)

theorem resetPassword_error_no_write_witness:
  "handleResetPassword digest0 rnd0 901 store0 ''R1'' ''password2''
     = (Error ''Reset token has expired'', store0)
   \<and> handleResetPassword digest0 rnd0 10 store0 ''R1'' ''short''
     = (Error ''Password must be at least 8 characters'', store0)"
  using resetPassword_error_no_write [of digest0 rnd0 901 store0 "''R1''" "''password2''" "''Reset token has expired''"]
    resetPassword_error_no_write [of digest0 rnd0 10 store0 "''R1''" "''short''" "''Password must be at least 8 characters''"]
  by (simp add: handleResetPassword_def findUserByResetToken_def ex_defs dateBefore_def)

section \<open>The digest of the examples is injective\<close>

lemma and255: "(b::int) AND 255 = b mod 256"
proof -
  have "b AND mask 8 = take_bit 8 b" by (simp add: take_bit_eq_mask)
  then show ?thesis by (simp add: take_bit_eq_mod mask_eq_exp_minus_1)
qed

lemma hexDigit_0: "hexDigit 0 = CHR ''0''"
  by (simp add: hexDigit_def)

lemma hexByte_eq: "hexByte b = [hexDigit (nat (b mod 256) div 16), hexDigit (nat (b mod 256) mod 16)]"
proof (cases "nat (b mod 256) < 16")
  case True
  then show ?thesis by (simp add: hexByte_def toString16_def and255 hexDigit_0)
next
  case False
  then show ?thesis by (simp add: hexByte_def toString16_def and255)
qed


lemma hexDigit_inj: "m < 16 \<Longrightarrow> n < 16 \<Longrightarrow> hexDigit m = hexDigit n \<Longrightarrow> m = n"
proof -
  assume a: "m < 16" "n < 16" "hexDigit m = hexDigit n"
  have d: "distinct ''0123456789abcdef''" by simp
  have l: "length ''0123456789abcdef'' = 16" by simp
  from a l d show ?thesis unfolding hexDigit_def
    by (simp add: nth_eq_iff_index_eq)
qed


lemma hexByte_inj:
  assumes "hexByte a = hexByte b"
  shows "a mod 256 = b mod 256"
proof -
  define m where "m = nat (a mod 256)"
  define n where "n = nat (b mod 256)"
  have lt: "m < 256" "n < 256" by (simp_all add: m_def n_def)
  then have r: "m div 16 < 16" "n div 16 < 16" "m mod 16 < 16" "n mod 16 < 16" by simp_all
  from assms have "hexDigit (m div 16) = hexDigit (n div 16)"
    "hexDigit (m mod 16) = hexDigit (n mod 16)" by (simp_all add: hexByte_eq m_def n_def)
  with r have "m div 16 = n div 16" "m mod 16 = n mod 16"
    by (blast intro: hexDigit_inj)+
  then have "m = n" by (metis div_mult_mod_eq)
  then show ?thesis by (simp add: m_def n_def nat_eq_iff)
qed


lemma concat_hexByte_inj:
  "concat (map hexByte xs) = concat (map hexByte ys) \<Longrightarrow>
     map (\<lambda>b. b mod 256) xs = map (\<lambda>b. b mod 256) ys"
proof (induction xs arbitrary: ys)
  case Nil
  then show ?case by (cases ys) (simp_all add: hexByte_eq)
next
  case (Cons a xs)
  show ?case
  proof (cases ys)
    case Nil
    with Cons.prems show ?thesis by (simp add: hexByte_eq)
  next
    case (Cons b zs)
    with Cons.prems have e: "hexByte a @ concat (map hexByte xs) = hexByte b @ concat (map hexByte zs)"
      by simp
    have "length (hexByte a) = length (hexByte b)" by (simp add: hexByte_eq)
    with e have h: "hexByte a = hexByte b" and t: "concat (map hexByte xs) = concat (map hexByte zs)"
      by simp_all
    from h have "a mod 256 = b mod 256" by (rule hexByte_inj)
    moreover from t have "map (\<lambda>b. b mod 256) xs = map (\<lambda>b. b mod 256) zs" by (rule Cons.IH)
    ultimately show ?thesis using Cons by simp
  qed
qed

lemma inj_hexDigest_digest0: "inj (hexDigest digest0)"
proof (rule injI)
  fix x y :: string
  assume "hexDigest digest0 x = hexDigest digest0 y"
  then have "map (\<lambda>b. b mod 256) (digest0 x) = map (\<lambda>b. b mod 256) (digest0 y)"
    unfolding hexDigest_def by (rule concat_hexByte_inj)
  then have "map (\<lambda>c. int (of_char c) mod 256) x = map (\<lambda>c. int (of_char c) mod 256) y"
    by (simp add: digest0_def comp_def)
  moreover have "int (of_char c) mod 256 = int (of_char c)" for c :: char
    using nat_of_char_less_256 [of c] by simp
  ultimately have "map (\<lambda>c::char. int (of_char c)) x = map (\<lambda>c. int (of_char c)) y"
    by simp
  moreover have "inj (\<lambda>c::char. int (of_char c))"
    by (rule injI) simp
  ultimately show "x = y" by (simp add: inj_map_eq_map)
qed

section \<open>Reset followed by login\<close>

lemma resetPassword_success:
  assumes tok: "tok \<noteq> []" and len: "8 \<le> length newPassword"
    and rt: "findUserByResetToken (users st) tok = Some (row, u)"
    and ne: "\<not> dateBefore (reset_token_expires u) now"
    and fe: "findUserByEmail (users st) (email u) = Some (row, u)"
  shows "\<exists>st1. handleResetPassword digest rnd now st tok newPassword =
            (Success ''Password updated successfully'', st1)
          \<and> sessions st1 = sessions st
          \<and> findUserByEmail (users st1) (email u) =
              Some (row, u\<lparr>password_hash := hashPassword digest newPassword (generateToken rnd 0 32),
                          salt := generateToken rnd 0 32, reset_token := [],
                          reset_token_expires := None, updated_at := now\<rparr>)"
proof -
  let ?e = "email u"
  let ?slt = "generateToken rnd 0 32"
  let ?w1 = "Set_password_hash (hashPassword digest newPassword ?slt)"
  let ?w2 = "Set_salt ?slt"
  let ?w3 = "Set_reset_token []"
  let ?w4 = "Set_reset_token_expires None"
  let ?w5 = "Set_updated_at now"
  let ?u1 = "updateUserField (users st) ?e ?w1"
  let ?u2 = "updateUserField ?u1 ?e ?w2"
  let ?u3 = "updateUserField ?u2 ?e ?w3"
  let ?u4 = "updateUserField ?u3 ?e ?w4"
  let ?u5 = "updateUserField ?u4 ?e ?w5"
  have f1: "findUserByEmail ?u1 ?e = Some (row, setValue ?w1 u)"
    using fe by (rule updateUserField_found(2))
  have f2: "findUserByEmail ?u2 ?e = Some (row, setValue ?w2 (setValue ?w1 u))"
    using f1 by (rule updateUserField_found(2))
  have f3: "findUserByEmail ?u3 ?e = Some (row, setValue ?w3 (setValue ?w2 (setValue ?w1 u)))"
    using f2 by (rule updateUserField_found(2))
  have f4: "findUserByEmail ?u4 ?e = Some (row, setValue ?w4 (setValue ?w3 (setValue ?w2 (setValue ?w1 u))))"
    using f3 by (rule updateUserField_found(2))
  have f5: "findUserByEmail ?u5 ?e =
      Some (row, setValue ?w5 (setValue ?w4 (setValue ?w3 (setValue ?w2 (setValue ?w1 u)))))"
    using f4 by (rule updateUserField_found(2))
  have len': "\<not> length newPassword < 8" "newPassword \<noteq> []" using len by auto
  have "handleResetPassword digest rnd now st tok newPassword =
          (Success ''Password updated successfully'', st\<lparr>users := ?u5\<rparr>)"
    using tok len' rt ne by (simp add: handleResetPassword_def Let_def)
  moreover have "findUserByEmail (users (st\<lparr>users := ?u5\<rparr>)) ?e =
      Some (row, u\<lparr>password_hash := hashPassword digest newPassword ?slt,
                  salt := ?slt, reset_token := [], reset_token_expires := None, updated_at := now\<rparr>)"
    using f5 by simp
  ultimately show ?thesis by (intro exI[of _ "st\<lparr>users := ?u5\<rparr>"]) simp
qed


text \<open>
  Claim C2, as stated, fails when the new password is the old one: resetPassword does not
  compare them, so after \<open>ann\<close> resets her password \<open>password1\<close> to \<open>password1\<close> a
  login with the previous password still succeeds, with an injective digest.
\<close>

theorem reset_same_password_counterexample:
  "inj (hexDigest digest0)
   \<and> findUserByResetToken (users store0) ''R1'' = Some (2, ann)
   \<and> verified ann
   \<and> hashPassword digest0 ''password1'' (salt ann) = password_hash ann
   \<and> 8 \<le> length ''password1''
   \<and> fst (handleResetPassword digest0 rnd0 10 store0 ''R1'' ''password1'') =
        Success ''Password updated successfully''
   \<and> fst (handleLogin digest0 rnd0 20
             (snd (handleResetPassword digest0 rnd0 10 store0 ''R1'' ''password1''))
             ''a@x.com'' ''password1'') \<noteq> Error ''Invalid login credentials''"
proof -
  have a: "findUserByResetToken (users store0) ''R1'' = Some (2, ann)"
    by (simp add: findUserByResetToken_def ex_defs)
  have b: "hashPassword digest0 ''password1'' (salt ann) = password_hash ann"
    by (simp add: hash_defs ann_def)
  have c: "handleResetPassword digest0 rnd0 10 store0 ''R1'' ''password1'' =
     (Success ''Password updated successfully'',
      store0\<lparr>users := [headerUser,
         ann\<lparr>password_hash := hashPassword digest0 ''password1'' (generateToken rnd0 0 32),
              salt := generateToken rnd0 0 32, reset_token := [],
              reset_token_expires := None, updated_at := 10\<rparr>, bob]\<rparr>)"
    by (simp add: handleResetPassword_def a dateBefore_def Let_def updateUserField_def
        findUserByEmail_def)
       (simp add: ex_defs)
  have d: "fst (handleLogin digest0 rnd0 20
             (snd (handleResetPassword digest0 rnd0 10 store0 ''R1'' ''password1''))
             ''a@x.com'' ''password1'') \<noteq> Error ''Invalid login credentials''"
    unfolding c by (simp add: handleLogin_def findUserByEmail_def Let_def) (simp add: ex_defs)
  show ?thesis using inj_hexDigest_digest0 a b c d by (simp add: ann_def)
qed



text \<open>
  Claim C2, amended. Let the digest map distinct inputs (the concatenations
  \<open>password + salt\<close>) to distinct hex digests, let emails be the key of the users sheet,
  and let a verified user have a pending reset token. After a successful
  resetPassword(token, newPassword) with a new password of at least 8 characters,
  login(email, newPassword) succeeds, and login(email, oldPassword) answers
  "Invalid login credentials" and leaves the store alone, for every password
  \<open>oldPassword\<close> that differs from the new one, the previous password included when it
  differs.
\<close>

theorem reset_then_login:
  assumes inj: "inj (hexDigest digest)"
    and uniq: "distinct (map email (drop 1 (users st)))"
    and pending: "findUserByResetToken (users st) tok = Some (row, u)"
    and ver: "verified u" and em: "email u \<noteq> []"
    and len: "8 \<le> length newPassword"
    and old: "oldPassword \<noteq> []" "oldPassword \<noteq> newPassword"
    and ok: "handleResetPassword digest rnd now st tok newPassword = (Success msg, st1)"
  shows "(\<exists>t e st2. handleLogin digest rnd' now' st1 (email u) newPassword =
             (LoginSuccess t e (summary u), st2))
       \<and> handleLogin digest rnd'' now'' st1 (email u) oldPassword =
             (Error ''Invalid login credentials'', st1)"
proof -
  from ok have tok: "tok \<noteq> []" by (auto simp: handleResetPassword_def split: if_splits)
  from ok pending have ne: "\<not> dateBefore (reset_token_expires u) now"
    by (auto simp: handleResetPassword_def Let_def split: if_splits)
  from pending have sc: "scanRows (\<lambda>r. reset_token r = tok) 1 (drop 1 (users st)) = Some (row, u)"
    by (simp add: findUserByResetToken_def)
  from scan_sheet_Some[OF sc] have r: "2 \<le> row" "row \<le> length (users st)" "users st ! (row - 1) = u"
    by auto
  from distinct_email_first[OF uniq r(1,2)] r(3)
  have fe: "findUserByEmail (users st) (email u) = Some (row, u)" by simp
  let ?slt = "generateToken rnd 0 32"
  let ?u' = "u\<lparr>password_hash := hashPassword digest newPassword ?slt,
                  salt := ?slt, reset_token := [], reset_token_expires := None, updated_at := now\<rparr>"
  from resetPassword_success[OF tok len pending ne fe, of digest rnd] ok
  have f: "findUserByEmail (users st1) (email u) = Some (row, ?u')" by auto
  have np: "newPassword \<noteq> []" using len by auto
  have s: "summary ?u' = summary u" by (simp add: summary_def)
  have "handleLogin digest rnd' now' st1 (email u) newPassword =
      (LoginSuccess (generateToken rnd' 0 64) (now' + SESSION_DURATION_DAYS * 24 * 60 * 60 * 1000)
         (summary u),
       st1\<lparr>sessions := sessions st1 @ [\<lparr>token = generateToken rnd' 0 64, user_email = email u,
           session_created_at = now',
           expires_at = now' + SESSION_DURATION_DAYS * 24 * 60 * 60 * 1000\<rparr>]\<rparr>)"
    using em np f ver s by (simp add: handleLogin_def Let_def)
  then have A: "\<exists>t e st2. handleLogin digest rnd' now' st1 (email u) newPassword =
             (LoginSuccess t e (summary u), st2)" by blast
  have "oldPassword @ ?slt \<noteq> newPassword @ ?slt" using old(2) by simp
  with inj have "hexDigest digest (oldPassword @ ?slt) \<noteq> hexDigest digest (newPassword @ ?slt)"
    by (auto dest: injD)
  then have "hashPassword digest oldPassword (salt ?u') \<noteq> password_hash ?u'"
    by (simp add: hashPassword_def)
  then have B: "handleLogin digest rnd'' now'' st1 (email u) oldPassword =
             (Error ''Invalid login credentials'', st1)"
    using em old(1) f ver by (simp add: handleLogin_def)
  from A B show ?thesis by blast
qed

theorem reset_then_login_witness:
  "(\<exists>t e st2. handleLogin digest0 rnd0 20
        (snd (handleResetPassword digest0 rnd0 10 store0 ''R1'' ''password2''))
        ''a@x.com'' ''password2'' = (LoginSuccess t e (summary ann), st2))
   \<and> handleLogin digest0 rnd0 30
        (snd (handleResetPassword digest0 rnd0 10 store0 ''R1'' ''password2''))
        ''a@x.com'' ''password1'' =
       (Error ''Invalid login credentials'',
        snd (handleResetPassword digest0 rnd0 10 store0 ''R1'' ''password2''))"
proof -
  have a: "findUserByResetToken (users store0) ''R1'' = Some (2, ann)"
    by (simp add: findUserByResetToken_def ex_defs)
  have u: "distinct (map email (drop 1 (users store0)))"
    by (simp add: ex_defs)
  have c: "handleResetPassword digest0 rnd0 10 store0 ''R1'' ''password2'' =
     (Success ''Password updated successfully'',
      snd (handleResetPassword digest0 rnd0 10 store0 ''R1'' ''password2''))"
    by (simp add: handleResetPassword_def a dateBefore_def Let_def) (simp add: ann_def)
  have e: "email ann = ''a@x.com''" "verified ann" by (simp_all add: ann_def)
  from reset_then_login [OF inj_hexDigest_digest0 u a _ _ _ _ _ c,
      of "''password1''" rnd0 20 rnd0 30] e
  show ?thesis by simp
qed

section \<open>Email confirmation\<close>

lemma confirmEmail_twice:
  fixes now1 :: int and st :: store
  assumes vt: "vt \<noteq> []"
    and fv: "findUserByVerifyToken (users st) vt = Some (row, u)"
    and nv: "\<not> verified u"
    and fe: "findUserByEmail (users st) (email u) = Some (row, u)"
    and others: "\<forall>j. 1 \<le> j \<and> j < length (users st) \<and> j \<noteq> row - 1
                   \<longrightarrow> verify_token (users st ! j) \<noteq> vt"
  defines "st2 \<equiv> st\<lparr>users := (users st)[row - 1 :=
                     u\<lparr>verified := True, verify_token := [], updated_at := now1\<rparr>]\<rparr>"
  shows "handleConfirmEmail now1 st vt =
           (Redirect (APP_URL @ ''/confirm.html?success=true'') ''Cuenta verificada exitosamente!'', st2)"
    and "handleConfirmEmail now2 st2 vt =
           (Redirect (APP_URL @ ''/confirm.html?error=invalid_token'') ''Token invalido o expirado.'', st2)"
proof -
  let ?e = "email u"
  let ?w1 = "Set_verified True" and ?w2 = "Set_verify_token []" and ?w3 = "Set_updated_at now1"
  let ?u1 = "updateUserField (users st) ?e ?w1"
  let ?u2 = "updateUserField ?u1 ?e ?w2"
  let ?u3 = "updateUserField ?u2 ?e ?w3"
  have f1: "findUserByEmail ?u1 ?e = Some (row, setValue ?w1 u)"
    and e1: "?u1 = (users st)[row - 1 := setValue ?w1 u]"
    using fe by (rule updateUserField_found)+
  have f2: "findUserByEmail ?u2 ?e = Some (row, setValue ?w2 (setValue ?w1 u))"
    and e2: "?u2 = ?u1[row - 1 := setValue ?w2 (setValue ?w1 u)]"
    using f1 by (rule updateUserField_found)+
  have e3: "?u3 = ?u2[row - 1 := setValue ?w3 (setValue ?w2 (setValue ?w1 u))]"
    using f2 by (rule updateUserField_found)
  have "?u3 = (users st)[row - 1 := u\<lparr>verified := True, verify_token := [], updated_at := now1\<rparr>]"
    unfolding e3 unfolding e2 unfolding e1 by simp
  then show first: "handleConfirmEmail now1 st vt =
           (Redirect (APP_URL @ ''/confirm.html?success=true'') ''Cuenta verificada exitosamente!'', st2)"
    using fv nv by (simp add: handleConfirmEmail_def Let_def st2_def)
  from fv have sc: "scanRows (\<lambda>r. verify_token r = vt) 1 (drop 1 (users st)) = Some (row, u)"
    by (simp add: findUserByVerifyToken_def)
  from scan_sheet_Some[OF sc] have r: "2 \<le> row" "row \<le> length (users st)" by auto
  have "verify_token r' \<noteq> vt" if "r' \<in> set (drop 1 (users st2))" for r'
  proof -
    from that obtain k where k: "k < length (drop 1 (users st2))" "drop 1 (users st2) ! k = r'"
      by (auto simp: in_set_conv_nth)
    then have kl: "k + 1 < length (users st)" by (simp add: st2_def)
    then have r': "r' = users st2 ! (k + 1)" using k by (simp add: st2_def)
    show ?thesis
    proof (cases "k + 1 = row - 1")
      case True
      then show ?thesis using r' kl vt by (simp add: st2_def)
    next
      case False
      then have "users st2 ! (k + 1) = users st ! (k + 1)" by (simp add: st2_def)
      with others False kl r' show ?thesis by simp
    qed
  qed
  then have "findUserByVerifyToken (users st2) vt = None"
    by (simp add: findUserByVerifyToken_def scanRows_None)
  then show "handleConfirmEmail now2 st2 vt =
           (Redirect (APP_URL @ ''/confirm.html?error=invalid_token'') ''Token invalido o expirado.'', st2)"
    by (simp add: handleConfirmEmail_def)
qed


text \<open>
  Claim C3: what the code does. For a user created by signup on a users sheet with its
  header row, whose verify token no other row carries, the first confirmEmail with that
  token redirects to \<open>success=true\<close>; the second confirmEmail with the same token
  redirects to \<open>error=invalid_token\<close>, not to \<open>error=already_verified\<close>, because the
  first one blanked the token and the lookup by token finds no row. The second attempt
  writes nothing.
\<close>

theorem confirmEmail_replay:
  assumes hdr: "users st \<noteq> []"
    and signup: "handleSignup digest rnd sendEmail now st em pw un = (Success msg, st1)"
    and fresh: "\<forall>r\<in>set (drop 1 (users st)). verify_token r \<noteq> generateToken rnd 32 32"
  shows "\<exists>st2. handleConfirmEmail now1 st1 (generateToken rnd 32 32) =
           (Redirect (APP_URL @ ''/confirm.html?success=true'') ''Cuenta verificada exitosamente!'', st2)
       \<and> handleConfirmEmail now2 st2 (generateToken rnd 32 32) =
           (Redirect (APP_URL @ ''/confirm.html?error=invalid_token'') ''Token invalido o expirado.'', st2)"
proof -
  let ?vt = "generateToken rnd 32 32"
  let ?new = "\<lparr>email = em, username = un,
                password_hash = hashPassword digest pw (generateToken rnd 0 32),
                salt = generateToken rnd 0 32, created_at = now, verified = False,
                verify_token = ?vt, reset_token = [],
                reset_token_expires = None, updated_at = now\<rparr>"
  let ?row = "length (users st) + 1"
  from signup have none: "findUserByEmail (users st) em = None"
    and st1: "users st1 = users st @ [?new]"
    by (auto simp: handleSignup_def Let_def split: if_splits option.splits)
  have d: "drop 1 (users st1) = drop 1 (users st) @ [?new]"
    using hdr st1 by (cases "users st") simp_all
  have ln: "1 + length (drop 1 (users st)) = length (users st)"
    using hdr by (cases "users st") simp_all
  have vt: "?vt \<noteq> []" by (rule generateToken_nonempty) simp
  have fv: "findUserByVerifyToken (users st1) ?vt = Some (?row, ?new)"
    using fresh ln unfolding findUserByVerifyToken_def d scanRows_append
    by (simp add: iffD2[OF scanRows_None])
  have fe: "findUserByEmail (users st1) (email ?new) = Some (?row, ?new)"
    using none ln unfolding findUserByEmail_def d scanRows_append by simp
  have others: "\<forall>j. 1 \<le> j \<and> j < length (users st1) \<and> j \<noteq> ?row - 1
                   \<longrightarrow> verify_token (users st1 ! j) \<noteq> ?vt"
  proof (intro allI impI)
    fix j assume j: "1 \<le> j \<and> j < length (users st1) \<and> j \<noteq> ?row - 1"
    then have jl: "j < length (users st)" using st1 by simp
    then have "users st1 ! j = users st ! j" using st1 by (simp add: nth_append)
    moreover have "users st ! j \<in> set (drop 1 (users st))"
      using j jl by (auto simp: in_set_conv_nth intro!: exI[of _ "j - 1"])
    ultimately show "verify_token (users st1 ! j) \<noteq> ?vt" using fresh by simp
  qed
  have nv: "\<not> verified ?new" by simp
  from confirmEmail_twice[OF vt fv nv fe others, of now1] confirmEmail_twice(2)[OF vt fv nv fe others, of now2 now1]
  show ?thesis by blast
qed

theorem confirmEmail_replay_witness:
  "fst (handleConfirmEmail 2
         (snd (handleSignup digest0 rnd0 mailer0 1 store0 ''c@x.com'' ''pw123456'' ''cy''))
         (generateToken rnd0 32 32)) =
     Redirect (APP_URL @ ''/confirm.html?success=true'') ''Cuenta verificada exitosamente!''
   \<and> handleConfirmEmail 3
      (snd (handleConfirmEmail 2
         (snd (handleSignup digest0 rnd0 mailer0 1 store0 ''c@x.com'' ''pw123456'' ''cy''))
         (generateToken rnd0 32 32)))
      (generateToken rnd0 32 32) =
     (Redirect (APP_URL @ ''/confirm.html?error=invalid_token'') ''Token invalido o expirado.'',
      snd (handleConfirmEmail 2
         (snd (handleSignup digest0 rnd0 mailer0 1 store0 ''c@x.com'' ''pw123456'' ''cy''))
         (generateToken rnd0 32 32)))"
proof -
  have h: "users store0 \<noteq> []" by (simp add: store0_def)
  have s: "handleSignup digest0 rnd0 mailer0 1 store0 ''c@x.com'' ''pw123456'' ''cy'' =
      (Success ''Registration successful. Please check your email to verify your account.'',
       snd (handleSignup digest0 rnd0 mailer0 1 store0 ''c@x.com'' ''pw123456'' ''cy''))"
    by (simp add: handleSignup_def findUserByEmail_def Let_def store0_def)
       (simp add: ex_defs)
  have "\<forall>r\<in>set (drop 1 (users store0)). length (verify_token r) \<noteq> 32"
    by (simp add: store0_def ann_def bob_def)
  then have f: "\<forall>r\<in>set (drop 1 (users store0)). verify_token r \<noteq> generateToken rnd0 32 32"
    by (metis length_generateToken)
  from confirmEmail_replay [OF h s f, of 2 3]
  show ?thesis by auto
qed

section \<open>Chat relay\<close>

lemma lineStep_unparsable: "parse line = None \<Longrightarrow> lineStep parse fullContent line = fullContent"
  by (simp add: lineStep_def tryLine_def)

lemma lineStep_error_line:
  "parse line = Some json \<Longrightarrow> getProp json ''type'' = Inr (Some (JString ''error'')) \<Longrightarrow>
     lineStep parse fullContent line = fullContent"
  by (simp add: lineStep_def tryLine_def split: sum.splits)

lemma readBody_never_fails: "\<exists>d. readBody parse text = Data d"
  by (simp add: readBody_def Let_def split: option.splits)

text \<open>
  Claim C4: what the code does. The \<open>throw new Error(json.content || ...)\<close> for a line
  of kind "error" stands inside the \<open>try\<close> whose \<open>catch\<close> skips invalid lines, so it is
  caught there: the error line is skipped like a line that does not parse
  (\<open>lineStep_error_line\<close>, \<open>lineStep_unparsable\<close>), the remaining lines are processed and
  no body makes the call fail (\<open>readBody_never_fails\<close>). On the body made of an error
  line with content "boom" followed by an item line with content "hi", sendMessage
  returns the data "hi" and no error.
\<close>

theorem sendMessage_swallows_error_line:
  "sendMessage parse0 ''hola'' (Response True ''200'' (errorLine @ [CHR 0x0A] @ itemLine))
     = Data (Output ''hi'')"
  by (simp add: sendMessage_def readBody_def trim_def isWhiteSpace_def errorLine_def itemLine_def
      parse0_def lineStep_def tryLine_def)

section \<open>Chat statistics\<close>

lemma tally_human:
  "t_humanCount (foldl (tallyRow em) acc rows) =
     t_humanCount acc + length (filter (\<lambda>r. msg_user_email r = em \<and> message_type r = ''human'') rows)"
  by (induction rows arbitrary: acc) (simp_all add: tallyRow_def)

lemma tally_ai:
  "t_aiCount (foldl (tallyRow em) acc rows) =
     t_aiCount acc + length (filter (\<lambda>r. msg_user_email r = em \<and> message_type r = ''ai'') rows)"
  by (induction rows arbitrary: acc) (simp_all add: tallyRow_def)

lemma tally_byDay:
  "t_messagesByDay (foldl (tallyRow em) acc rows) d =
     t_messagesByDay acc d
       + length (filter (\<lambda>r. msg_user_email r = em \<and> dayOf (msg_created_at r) = d) rows)"
  by (induction rows arbitrary: acc) (simp_all add: tallyRow_def)

lemma tally_sessions_set:
  "set (t_sessions (foldl (tallyRow em) acc rows)) =
     set (t_sessions acc) \<union> session_id ` {r \<in> set rows. msg_user_email r = em}"
  by (induction rows arbitrary: acc) (auto simp: tallyRow_def setAdd_def)

lemma tally_sessions_distinct:
  "distinct (t_sessions acc) \<Longrightarrow> distinct (t_sessions (foldl (tallyRow em) acc rows))"
  by (induction rows arbitrary: acc) (simp_all add: tallyRow_def setAdd_def)


lemma last7Days_counts:
  "map d_count (last7Days cal now byDay) =
     map (\<lambda>i. byDay (dayOf (daysBefore cal now i))) [6, 5, 4, 3, 2, 1, 0]"
  by (simp only: last7Days_def Let_def map_map comp_def day_bar.simps fst_conv snd_conv)

text \<open>
  Claim C10. For an authenticated user (a token whose session row exists and has not
  expired), getChatStats returns \<open>totalMessages = humanMessages + aiMessages\<close>, where
  \<open>humanMessages\<close> and \<open>aiMessages\<close> count the user's rows of type "human" and "ai": a row of
  any other type is in none of the three counts. \<open>totalSessions\<close> is the number of distinct
  session ids over all the user's rows and each bar of the histogram counts all the
  user's rows of its day, whatever their type.
\<close>

theorem chatStats_counts:
  assumes "tok \<noteq> []"
    and "findSessionByToken (sessions st) tok = Some (row, ses)"
    and "\<not> expires_at ses < now"
  defines "mine \<equiv> filter (\<lambda>r. msg_user_email r = user_email ses) (drop 1 (chat_history st))"
  shows "\<exists>s. handleGetChatStats cal now st tok = ChatStats s
      \<and> totalMessages s = humanMessages s + aiMessages s
      \<and> humanMessages s = length (filter (\<lambda>r. message_type r = ''human'') mine)
      \<and> aiMessages s = length (filter (\<lambda>r. message_type r = ''ai'') mine)
      \<and> totalMessages s =
          length (filter (\<lambda>r. message_type r = ''human'' \<or> message_type r = ''ai'') mine)
      \<and> totalSessions s = card (session_id ` set mine)
      \<and> map d_count (messagesByDay s) =
          map (\<lambda>i. length (filter (\<lambda>r. dayOf (msg_created_at r) = dayOf (daysBefore cal now i)) mine))
            [6, 5, 4, 3, 2, 1, 0]"
proof -
  let ?em = "user_email ses"
  let ?acc = "tallyRows ?em (chat_history st)"
  have h: "t_humanCount ?acc = length (filter (\<lambda>r. message_type r = ''human'') mine)"
    by (simp add: tallyRows_def tally_human mine_def conj_commute)
  have a: "t_aiCount ?acc = length (filter (\<lambda>r. message_type r = ''ai'') mine)"
    by (simp add: tallyRows_def tally_ai mine_def conj_commute)
  have "length (filter (\<lambda>r. message_type r = ''human'' \<or> message_type r = ''ai'') xs) =
        length (filter (\<lambda>r. message_type r = ''human'') xs)
          + length (filter (\<lambda>r. message_type r = ''ai'') xs)" for xs :: "chat_row list"
    by (induction xs) auto
  then have t: "t_humanCount ?acc + t_aiCount ?acc =
        length (filter (\<lambda>r. message_type r = ''human'' \<or> message_type r = ''ai'') mine)"
    using h a by simp
  have "distinct (t_sessions ?acc)"
    unfolding tallyRows_def by (rule tally_sessions_distinct) simp
  moreover have "set (t_sessions ?acc) = session_id ` set mine"
    by (auto simp: tallyRows_def tally_sessions_set mine_def)
  ultimately have s: "length (t_sessions ?acc) = card (session_id ` set mine)"
    by (metis distinct_card)
  have d: "t_messagesByDay ?acc d = length (filter (\<lambda>r. dayOf (msg_created_at r) = d) mine)" for d
    by (simp add: tallyRows_def tally_byDay mine_def conj_commute)
  have b: "map d_count (last7Days cal now (t_messagesByDay ?acc)) =
          map (\<lambda>i. length (filter (\<lambda>r. dayOf (msg_created_at r) = dayOf (daysBefore cal now i)) mine))
            [6, 5, 4, 3, 2, 1, 0]"
    unfolding last7Days_counts by (simp only: d)
  let ?s = "\<lparr>totalSessions = length (t_sessions ?acc),
             totalMessages = t_humanCount ?acc + t_aiCount ?acc,
             humanMessages = t_humanCount ?acc,
             aiMessages = t_aiCount ?acc,
             messagesByDay = last7Days cal now (t_messagesByDay ?acc),
             recentConversations = recentOf ?em (chat_history st) (t_sessions ?acc),
             firstMessageDate = fst (dateRange ?em (chat_history st)),
             lastMessageDate = snd (dateRange ?em (chat_history st))\<rparr>"
  have r: "handleGetChatStats cal now st tok = ChatStats ?s"
    using assms(1-3) by (simp add: handleGetChatStats_def Let_def)
  show ?thesis
  proof (intro exI[of _ ?s] conjI)
    show "handleGetChatStats cal now st tok = ChatStats ?s" by (rule r)
    show "totalMessages ?s = humanMessages ?s + aiMessages ?s" by simp
    show "humanMessages ?s = length (filter (\<lambda>r. message_type r = ''human'') mine)"
      using h by simp
    show "aiMessages ?s = length (filter (\<lambda>r. message_type r = ''ai'') mine)"
      using a by simp
    show "totalMessages ?s =
          length (filter (\<lambda>r. message_type r = ''human'' \<or> message_type r = ''ai'') mine)"
      using t by simp
    show "totalSessions ?s = card (session_id ` set mine)" using s by simp
    show "map d_count (messagesByDay ?s) =
          map (\<lambda>i. length (filter (\<lambda>r. dayOf (msg_created_at r) = dayOf (daysBefore cal now i)) mine))
            [6, 5, 4, 3, 2, 1, 0]"
      using b by simp
  qed
qed


theorem chatStats_counts_witness:
  "\<exists>s. handleGetChatStats cal0 86400100 (store0\<lparr>chat_history := chat0\<rparr>) ''tokA'' = ChatStats s
      \<and> totalMessages s = 2 \<and> humanMessages s = 1 \<and> aiMessages s = 1
      \<and> totalSessions s = 2
      \<and> map d_count (messagesByDay s) = [0, 0, 0, 0, 0, 0, 3]"
proof -
  have f: "findSessionByToken (sessions (store0\<lparr>chat_history := chat0\<rparr>)) ''tokA'' = Some (2, annSession)"
    by (simp add: findSessionByToken_def ex_defs)
  have x: "\<not> expires_at annSession < 86400100" by (simp add: annSession_def)
  have m: "filter (\<lambda>r. msg_user_email r = user_email annSession)
             (drop 1 (chat_history (store0\<lparr>chat_history := chat0\<rparr>))) = drop 1 chat0"
    by (simp add: chat0_def annSession_def)
  from chatStats_counts [OF _ f x, of cal0] obtain s where
    s: "handleGetChatStats cal0 86400100 (store0\<lparr>chat_history := chat0\<rparr>) ''tokA'' = ChatStats s"
      "humanMessages s = length (filter (\<lambda>r. message_type r = ''human'') (drop 1 chat0))"
      "aiMessages s = length (filter (\<lambda>r. message_type r = ''ai'') (drop 1 chat0))"
      "totalMessages s =
          length (filter (\<lambda>r. message_type r = ''human'' \<or> message_type r = ''ai'') (drop 1 chat0))"
      "totalSessions s = card (session_id ` set (drop 1 chat0))"
      "map d_count (messagesByDay s) =
          map (\<lambda>i. length (filter (\<lambda>r. dayOf (msg_created_at r) = dayOf (daysBefore cal0 86400100 i))
                 (drop 1 chat0))) [6, 5, 4, 3, 2, 1, 0]"
    unfolding m by auto
  have "session_id ` set (drop 1 chat0) = {''s1'', ''s2''}"
    by (auto simp: chat0_def)
  then have "totalSessions s = 2" unfolding s(5) by simp
  moreover have "humanMessages s = 1" "aiMessages s = 1" "totalMessages s = 2"
    unfolding s(2-4) by (simp_all add: chat0_def)
  moreover have "map d_count (messagesByDay s) = [0, 0, 0, 0, 0, 0, 3]"
    unfolding s(6) by (simp add: chat0_def cal0_def dayOf_def)
  ultimately show ?thesis using s(1) by (intro exI[of _ s]) simp
qed

section \<open>Chat history\<close>

lemma fst_pushMessage [simp]: "fst (pushMessage sid msg entry) = fst entry"
  by (simp add: pushMessage_def)

lemma groupRow_invariant:
  assumes d: "distinct (map fst m)"
    and k: "fst ` set m = session_id ` set rs"
    and g: "\<forall>e\<in>set m. g_sessionId (snd e) = fst e
              \<and> g_messages (snd e) = map toMessage (filter (\<lambda>x. session_id x = fst e) rs)"
    and np: "session_id r \<notin> set objectPrototypeKeys"
  shows "\<exists>m'. groupRow m r = Inr m'
      \<and> distinct (map fst m')
      \<and> fst ` set m' = session_id ` set (rs @ [r])
      \<and> (\<forall>e\<in>set m'. g_sessionId (snd e) = fst e
              \<and> g_messages (snd e) = map toMessage (filter (\<lambda>x. session_id x = fst e) (rs @ [r])))"
proof -
  let ?sid = "session_id r"
  let ?new = "\<lparr>g_sessionId = ?sid, g_messages = [], g_firstMessageTime = msg_created_at r\<rparr>"
  let ?m1 = "if map_of m ?sid = None then m @ [(?sid, ?new)] else m"
  let ?m' = "map (pushMessage ?sid (toMessage r)) ?m1"
  have d1: "distinct (map fst ?m1)"
    using d by (auto simp: map_of_eq_None_iff)
  have k1: "fst ` set ?m1 = session_id ` set (rs @ [r])"
    using k by (auto simp: map_of_eq_None_iff image_iff) 
  have g1: "\<forall>e\<in>set ?m1. g_sessionId (snd e) = fst e
      \<and> g_messages (snd e) = map toMessage (filter (\<lambda>x. session_id x = fst e) rs)"
  proof (cases "map_of m ?sid = None")
    case True
    then have "?sid \<notin> session_id ` set rs" using k by (simp add: map_of_eq_None_iff)
    then have "filter (\<lambda>x. session_id x = ?sid) rs = []"
      unfolding filter_empty_conv by (metis imageI)
    with g True show ?thesis by auto
  next
    case False
    with g show ?thesis by auto
  qed
  have "?sid \<in> fst ` set ?m1" using k1 by simp
  then obtain grp where grp: "map_of ?m1 ?sid = Some grp"
    by (metis map_of_eq_None_iff not_Some_eq)
  have res: "groupRow m r = Inr ?m'"
    using np grp by (simp add: groupRow_def Let_def split: if_splits)
  have "distinct (map fst ?m')" using d1 by (simp add: comp_def)
  moreover have "fst ` set ?m' = session_id ` set (rs @ [r])"
    using k1 by (simp add: image_image)
  moreover have "\<forall>e\<in>set ?m'. g_sessionId (snd e) = fst e
      \<and> g_messages (snd e) = map toMessage (filter (\<lambda>x. session_id x = fst e) (rs @ [r]))"
  proof
    fix e assume "e \<in> set ?m'"
    then obtain e0 where e0: "e0 \<in> set ?m1" "e = pushMessage ?sid (toMessage r) e0" by auto
    from g1 e0(1) have p: "g_sessionId (snd e0) = fst e0"
      "g_messages (snd e0) = map toMessage (filter (\<lambda>x. session_id x = fst e0) rs)" by auto
    show "g_sessionId (snd e) = fst e
      \<and> g_messages (snd e) = map toMessage (filter (\<lambda>x. session_id x = fst e) (rs @ [r]))"
      using p by (cases "fst e0 = ?sid") (auto simp: e0(2) pushMessage_def)
  qed
  ultimately show ?thesis using res by blast
qed

lemma groupRows_invariant:
  assumes "distinct (map fst m)"
    and "fst ` set m = session_id ` set rs"
    and "\<forall>e\<in>set m. g_sessionId (snd e) = fst e
              \<and> g_messages (snd e) = map toMessage (filter (\<lambda>x. session_id x = fst e) rs)"
    and "\<forall>r\<in>set rows. msg_user_email r = em \<longrightarrow> session_id r \<notin> set objectPrototypeKeys"
  shows "\<exists>m'. groupRows em m rows = Inr m'
      \<and> distinct (map fst m')
      \<and> fst ` set m' = session_id ` set (rs @ filter (\<lambda>r. msg_user_email r = em) rows)
      \<and> (\<forall>e\<in>set m'. g_sessionId (snd e) = fst e
              \<and> g_messages (snd e) =
                  map toMessage (filter (\<lambda>x. session_id x = fst e)
                                   (rs @ filter (\<lambda>r. msg_user_email r = em) rows)))"
  using assms
proof (induction rows arbitrary: m rs)
  case Nil
  then show ?case by simp
next
  case (Cons r rows)
  show ?case
  proof (cases "msg_user_email r = em")
    case False
    with Cons.IH[OF Cons.prems(1-3)] Cons.prems(4) show ?thesis by simp
  next
    case True
    with Cons.prems(4) have np: "session_id r \<notin> set objectPrototypeKeys" by simp
    from groupRow_invariant[OF Cons.prems(1-3) np] obtain m1 where
      m1: "groupRow m r = Inr m1" "distinct (map fst m1)"
        "fst ` set m1 = session_id ` set (rs @ [r])"
        "\<forall>e\<in>set m1. g_sessionId (snd e) = fst e
              \<and> g_messages (snd e) = map toMessage (filter (\<lambda>x. session_id x = fst e) (rs @ [r]))"
      by blast
    have rest: "\<forall>r\<in>set rows. msg_user_email r = em \<longrightarrow> session_id r \<notin> set objectPrototypeKeys"
      using Cons.prems(4) by simp
    from Cons.IH[OF m1(2-4) rest] True m1(1) show ?thesis by simp
  qed
qed


lemma distinct_map_sort_key: "distinct (map h (sort_key f xs)) = distinct (map h xs)"
  by (simp add: distinct_map)

lemma set_objectValues: "set (objectValues obj) = snd ` set obj"
proof -
  have "{x \<in> set obj. arrayIndex (fst x) \<noteq> None} \<union> {x \<in> set obj. arrayIndex (fst x) = None}
          = set obj" by auto
  then show ?thesis
    by (simp add: objectValues_def image_Un [symmetric] del: not_None_eq)
qed

lemma distinct_map_objectValues:
  assumes "distinct (map (h \<circ> snd) obj)"
  shows "distinct (map h (objectValues obj))"
proof -
  let ?P = "\<lambda>entry. arrayIndex (fst entry) \<noteq> None"
  let ?H = "h \<circ> snd"
  from assms have i: "inj_on ?H (set obj)" and d: "distinct obj"
    by (simp_all add: distinct_map)
  have "distinct (map ?H (sort_key (\<lambda>entry. the (arrayIndex (fst entry))) (filter ?P obj)))"
    unfolding distinct_map_sort_key using assms by (rule distinct_map_filter)
  moreover have "distinct (map ?H (filter (\<lambda>entry. arrayIndex (fst entry) = None) obj))"
    using assms by (rule distinct_map_filter)
  moreover have "?H ` {e \<in> set obj. ?P e} \<inter> ?H ` {e \<in> set obj. arrayIndex (fst e) = None} = {}"
  proof -
    have False if "e1 \<in> set obj" "e2 \<in> set obj" "arrayIndex (fst e1) \<noteq> None"
      "arrayIndex (fst e2) = None" "?H e1 = ?H e2" for e1 e2
    proof -
      from i that(5) that(1,2) have "e1 = e2" by (rule inj_onD)
      with that(3,4) show False by simp
    qed
    then show ?thesis by blast
  qed
  ultimately have "distinct (map ?H (sort_key (\<lambda>entry. the (arrayIndex (fst entry))) (filter ?P obj)
      @ filter (\<lambda>entry. arrayIndex (fst entry) = None) obj))"
    by simp
  then show ?thesis by (simp add: objectValues_def comp_def)
qed

lemma length_firstContent: "length dflt \<le> n \<Longrightarrow> length (firstContent humans n dflt) \<le> n"
  by (simp add: firstContent_def split: list.splits)

lemma toConversation_fields:
  "sessionId (toConversation g) = g_sessionId g"
  "messages (toConversation g) = g_messages g"
  "length (preview (toConversation g)) \<le> 100"
  by (simp_all add: toConversation_def Let_def length_firstContent)

lemma chatHistory_groups:
  assumes tok: "tok \<noteq> []"
    and ses: "findSessionByToken (sessions st) tok = Some (row, ses)"
    and live: "\<not> expires_at ses < now"
    and np: "\<forall>r\<in>set (drop 1 (chat_history st)).
               msg_user_email r = user_email ses \<longrightarrow> session_id r \<notin> set objectPrototypeKeys"
  shows "\<exists>convs. handleGetChatHistory now st tok =
            ChatHistory convs (filter (\<lambda>r. msg_user_email r = user_email ses) (drop 1 (chat_history st)))
      \<and> distinct (map sessionId convs)
      \<and> sessionId ` set convs =
          session_id ` set (filter (\<lambda>r. msg_user_email r = user_email ses) (drop 1 (chat_history st)))
      \<and> (\<forall>c\<in>set convs.
            messages c = map toMessage (filter (\<lambda>r. session_id r = sessionId c)
               (filter (\<lambda>r. msg_user_email r = user_email ses) (drop 1 (chat_history st))))
            \<and> length (preview c) \<le> 100)"
proof -
  let ?em = "user_email ses"
  let ?mine = "filter (\<lambda>r. msg_user_email r = ?em) (drop 1 (chat_history st))"
  from groupRows_invariant[of "[]" "[]" "drop 1 (chat_history st)" ?em] np
  obtain m where m: "groupRows ?em [] (drop 1 (chat_history st)) = Inr m"
    "distinct (map fst m)" "fst ` set m = session_id ` set ?mine"
    "\<forall>e\<in>set m. g_sessionId (snd e) = fst e
        \<and> g_messages (snd e) = map toMessage (filter (\<lambda>x. session_id x = fst e) ?mine)"
    by auto
  let ?convs = "sortRecentFirst (map toConversation (objectValues m))"
  have res: "handleGetChatHistory now st tok = ChatHistory ?convs ?mine"
    using tok ses live m(1) by (simp add: handleGetChatHistory_def)
  have eq: "map (g_sessionId \<circ> snd) m = map fst m"
    using m(4) by simp
  have "distinct (map (g_sessionId \<circ> snd) m)" unfolding eq by (rule m(2))
  then have "distinct (map g_sessionId (objectValues m))"
    by (rule distinct_map_objectValues)
  then have d: "distinct (map sessionId ?convs)"
    by (simp add: sortRecentFirst_def distinct_map_sort_key comp_def toConversation_fields)
  have sc: "set ?convs = toConversation ` snd ` set m"
    by (simp add: sortRecentFirst_def set_objectValues)
  have ids: "sessionId ` set ?convs = session_id ` set ?mine"
  proof -
    have "sessionId ` set ?convs = (g_sessionId \<circ> snd) ` set m"
      unfolding sc by (simp add: image_image toConversation_fields)
    also have "\<dots> = fst ` set m" using m(4) by (intro image_cong) simp_all
    finally show ?thesis using m(3) by simp
  qed
  have grp: "\<forall>c\<in>set ?convs.
       messages c = map toMessage (filter (\<lambda>r. session_id r = sessionId c) ?mine)
       \<and> length (preview c) \<le> 100"
  proof
    fix c assume "c \<in> set ?convs"
    then obtain e where e: "e \<in> set m" "c = toConversation (snd e)" unfolding sc by auto
    with m(4) show "messages c = map toMessage (filter (\<lambda>r. session_id r = sessionId c) ?mine)
       \<and> length (preview c) \<le> 100"
      by (simp add: toConversation_fields)
  qed
  from res d ids grp show ?thesis by blast
qed

lemma preview_at_most_100:
  "handleGetChatHistory now st tok = ChatHistory convs msgs \<Longrightarrow> c \<in> set convs \<Longrightarrow>
     length (preview c) \<le> 100"
  by (auto simp: handleGetChatHistory_def sortRecentFirst_def toConversation_fields
      split: if_splits option.splits sum.splits)

text \<open>
  Claim C8: where the code fails. \<open>sessionsMap\<close> is a plain object, so for a session id
  that names a property of \<open>Object.prototype\<close> the test \<open>!sessionsMap[sessionId]\<close> is false
  before anything was stored, no group is created, and \<open>.messages.push\<close> raises a
  TypeError: a user who saved one message under the session id \<open>constructor\<close> gets no
  conversation groups at all. For users with no such session id the claim holds
  (\<open>chatHistory_groups\<close>), and a preview never exceeds 100 characters
  (\<open>preview_at_most_100\<close>).
\<close>

theorem chatHistory_inherited_name:
  "handleSaveChatMessage ''a'' 86400001 (store0\<lparr>chat_history := [headerChat]\<rparr>) ''tokA''
      ''constructor'' ''human'' ''hola''
     = (SavedMessage (86400001, ''a''), store0\<lparr>chat_history := chat1\<rparr>)
   \<and> handleGetChatHistory 86400100 (store0\<lparr>chat_history := chat1\<rparr>) ''tokA'' = Thrown TypeError"
  by (simp add: handleSaveChatMessage_def handleGetChatHistory_def findSessionByToken_def
      groupRow_def objectPrototypeKeys_def chat1_def Let_def ex_defs)

end
